theory Spec2Isabelle
  imports Main "HOL-Library.Word"
begin

unbundle bit_operations_syntax

section \<open>The BattlEye RCon client: packet codec, sequence numbers, session\<close>

text \<open>
  A shallow embedding of \<^verbatim>\<open>rconmsg.cc\<close> / \<^verbatim>\<open>rconmsg.hh\<close> (the message classes,
  \<^verbatim>\<open>Message::decode\<close>, the \<^verbatim>\<open>encode\<close> methods, the sequence counter) and of
  \<^verbatim>\<open>RconApp::sendPacket\<close>, \<^verbatim>\<open>RconApp::receivePacket\<close> and \<^verbatim>\<open>RconApp::run\<close>.

  Conventions of the model:
  \<^item> \<^verbatim>\<open>uint8_t\<close> and \<^verbatim>\<open>uint32_t\<close> are 8 and 32 bit words; \<^verbatim>\<open>size_t\<close> is 64 bits
    wide, a natural number whose subtraction wraps around (\<open>size_sub\<close>);
  \<^item> a byte buffer is a list of bytes, a pointer into it an offset; the list is what the
    caller supplied, so touching an index at or beyond its length, which is undefined
    behaviour in C++, is the failure \<open>OutOfBounds\<close> of the model;
  \<^item> a \<^verbatim>\<open>std::string\<close> is a \<open>string\<close>; \<^verbatim>\<open>char\<close> and \<^verbatim>\<open>uint8_t\<close> convert by value;
  \<^item> a thrown exception is the \<open>Inl\<close> of a sum; the mutable state (the text written to
    \<^verbatim>\<open>std::cout\<close>, the packets written to the socket, the static sequence counter) is
    passed explicitly.
\<close>

subsection \<open>Machine types\<close>

type_synonym uint8_t = "8 word"
type_synonym uint32_t = "32 word"

definition to_uint8 :: "char \<Rightarrow> uint8_t" where
  "to_uint8 c = word_of_nat (of_char c)"

definition to_char :: "uint8_t \<Rightarrow> char" where
  "to_char b = char_of (unat b)"

text \<open>Unsigned 64-bit subtraction: \<^verbatim>\<open>length - 10\<close> on a \<^verbatim>\<open>size_t\<close> below 10 wraps.\<close>

definition size_sub :: "nat \<Rightarrow> nat \<Rightarrow> nat" where
  "size_sub a b = (if b \<le> a then a - b else 2 ^ 64 + a - b)"

definition size_add :: "nat \<Rightarrow> nat \<Rightarrow> nat" where
  "size_add a b = (a + b) mod 2 ^ 64"

definition PTRDIFF_MAX :: nat where
  "PTRDIFF_MAX = 2 ^ 63 - 1"

definition BUF_SIZE :: nat where
  "BUF_SIZE = 2048"

subsection \<open>The checksum\<close>

text \<open>
  Modelled from the spec: \<^verbatim>\<open>crc32\<close> is zlib's, a library outside the repository. The
  spec names it "a standard CRC-32 (the widely used polynomial/table variant)": the
  reflected polynomial \<open>0xEDB88320\<close>, the register complemented before and after, one
  table lookup per byte. \<open>crc_table n\<close> is entry \<open>n\<close> of the table.
\<close>

definition crc_table_step :: "uint32_t \<Rightarrow> uint32_t" where
  "crc_table_step c = (if bit c 0 then 0xEDB88320 XOR drop_bit 1 c else drop_bit 1 c)"

definition crc_table :: "uint8_t \<Rightarrow> uint32_t" where
  "crc_table n =
     crc_table_step (crc_table_step (crc_table_step (crc_table_step
       (crc_table_step (crc_table_step (crc_table_step (crc_table_step (ucast n))))))))"

definition crc_update :: "uint32_t \<Rightarrow> uint8_t \<Rightarrow> uint32_t" where
  "crc_update c b = crc_table (ucast c XOR b) XOR drop_bit 8 c"

fun crc_bytes :: "uint32_t \<Rightarrow> uint8_t list \<Rightarrow> uint32_t" where
  "crc_bytes c [] = c"
| "crc_bytes c (b # bs) = crc_bytes (crc_update c b) bs"

definition crc32 :: "uint32_t \<Rightarrow> uint8_t list \<Rightarrow> uint32_t" where
  "crc32 crc buf = crc_bytes (crc XOR 0xFFFFFFFF) buf XOR 0xFFFFFFFF"

subsection \<open>Messages\<close>

datatype MsgType =
    MSG_NONE
  | MSG_LOGIN
  | MSG_LOGIN_RESP
  | MSG_CMD
  | MSG_CMD_RESP
  | MSG_CMD_PART_RESP
  | MSG_SRV_MSG
  | MSG_SRV_ACK

text \<open>
  The subclasses of \<^verbatim>\<open>Message\<close> with their fields, in the order of the constructors'
  parameters: \<open>Login mPassword\<close>, \<open>LoginResponse mResult\<close>, \<open>Command mSeqNum mCmdStr\<close>,
  \<open>CommandResponse mSeqNum mMsg\<close>, \<open>CommandPartialResponse mNofParts mPartIdx mMsg\<close>,
  \<open>ServerMessage mSeqNum mMsg\<close>, \<open>ServerAck mSeqNum\<close>.
\<close>

datatype message =
    Login string
  | LoginResponse uint8_t
  | Command uint8_t string
  | CommandResponse uint8_t string
  | CommandPartialResponse uint8_t uint8_t string
  | ServerMessage uint8_t string
  | ServerAck uint8_t

text \<open>The type tag each constructor passes to \<^verbatim>\<open>Message(MsgType)\<close>.\<close>

fun getType :: "message \<Rightarrow> MsgType" where
  "getType (Login _) = MSG_LOGIN"
| "getType (LoginResponse _) = MSG_LOGIN_RESP"
| "getType (Command _ _) = MSG_CMD"
| "getType (CommandResponse _ _) = MSG_CMD_RESP"
| "getType (CommandPartialResponse _ _ _) = MSG_CMD_PART_RESP"
| "getType (ServerMessage _ _) = MSG_SRV_MSG"
| "getType (ServerAck _) = MSG_SRV_ACK"

definition PKT_LOGIN :: uint8_t where "PKT_LOGIN = 0"
definition PKT_MULTI :: uint8_t where "PKT_MULTI = 0"
definition PKT_CMD :: uint8_t where "PKT_CMD = 1"
definition PKT_SERVER :: uint8_t where "PKT_SERVER = 2"

subsection \<open>Failures\<close>

text \<open>
  Every \<^verbatim>\<open>ProtocolException\<close> the sources throw, named after its message:
  \<open>EmptyPacket\<close> "Empty packet received!", \<open>KeyBytesNotMatched\<close> "Key bytes 'B','E' were
  not matched in packet header!", \<open>Crc32CheckFailed\<close> "CRC32 check failed against ...,
  packet is corrupted!", \<open>UnexpectedByte\<close> "Unexpected byte ... received at position 6!",
  \<open>UnknownMessageType\<close> "Unknown message type ... received!", \<open>PartialWrite\<close>
  "partial/failed write", \<open>SelectFailed\<close> "select() error", \<open>SocketReadError\<close> "socket
  read error", \<open>Timeout\<close> "timeout", \<open>UnexpectedMessage\<close> "Unexpected message received!",
  \<open>WrongPassword\<close> "Wrong RCON password!".
\<close>

datatype protocol_error =
    EmptyPacket
  | KeyBytesNotMatched
  | Crc32CheckFailed uint32_t
  | UnexpectedByte uint8_t
  | UnknownMessageType uint8_t
  | PartialWrite
  | SelectFailed
  | SocketReadError
  | Timeout
  | UnexpectedMessage
  | WrongPassword

text \<open>
  \<open>BadAlloc\<close> is the \<^verbatim>\<open>std::bad_alloc\<close> of \<^verbatim>\<open>operator new[]\<close>; \<open>OutOfBounds\<close> stands for
  an access outside the buffer the caller supplied.
\<close>

datatype failure =
    ProtocolException protocol_error
  | BadAlloc
  | OutOfBounds

fun is_ProtocolException :: "failure \<Rightarrow> bool" where
  "is_ProtocolException (ProtocolException _) = True"
| "is_ProtocolException BadAlloc = False"
| "is_ProtocolException OutOfBounds = False"

definition bindE :: "failure + 'a \<Rightarrow> ('a \<Rightarrow> failure + 'b) \<Rightarrow> failure + 'b" where
  "bindE r f = (case r of Inl e \<Rightarrow> Inl e | Inr x \<Rightarrow> f x)"

text \<open>\<^verbatim>\<open>buffer[i]\<close>, read.\<close>

definition at :: "uint8_t list \<Rightarrow> nat \<Rightarrow> failure + uint8_t" where
  "at buffer i = (if i < length buffer then Inr (buffer ! i) else Inl OutOfBounds)"

subsection \<open>Decoding\<close>

text \<open>
  \<^verbatim>\<open>*(uint32_t* )(buffer + off)\<close>, read and written: the four bytes in the byte order of
  the host, which is little-endian on the machines the client is built for.
\<close>

definition load_le32 :: "uint8_t list \<Rightarrow> nat \<Rightarrow> uint32_t" where
  "load_le32 buffer off =
     ucast (buffer ! off) OR push_bit 8 (ucast (buffer ! (off + 1)))
       OR push_bit 16 (ucast (buffer ! (off + 2))) OR push_bit 24 (ucast (buffer ! (off + 3)))"

definition store_le32 :: "uint8_t list \<Rightarrow> nat \<Rightarrow> uint32_t \<Rightarrow> uint8_t list" where
  "store_le32 buffer off v =
     buffer[off := ucast v, off + 1 := ucast (drop_bit 8 v),
            off + 2 := ucast (drop_bit 16 v), off + 3 := ucast (drop_bit 24 v)]"

text \<open>
  \<^verbatim>\<open>extractStr(buffer + off, len)\<close>. \<^verbatim>\<open>new char[len + 1]\<close> throws when the size, computed
  in \<^verbatim>\<open>size_t\<close>, exceeds what can be allocated (anything above \<open>PTRDIFF_MAX\<close>; smaller
  requests are taken to succeed). \<^verbatim>\<open>std::copy\<close> reads \<open>len\<close> bytes from the offset on.
  \<^verbatim>\<open>std::string(tmp)\<close> is the constructor from a C string: it takes the characters
  before the first \<open>0x00\<close>, which is the terminator written at \<open>tmp[len]\<close> when the copied
  bytes hold none. The release of the array (\<^verbatim>\<open>delete tmp\<close>) comes after the string is
  built and is not part of the model.
\<close>

definition extractStr :: "uint8_t list \<Rightarrow> nat \<Rightarrow> nat \<Rightarrow> failure + string" where
  "extractStr buffer off len =
     (if PTRDIFF_MAX < size_add len 1 then Inl BadAlloc
      else if length buffer < off + len then Inl OutOfBounds
      else
        let tmp = map to_char (take len (drop off buffer)) @ [CHR 0x00]
        in Inr (takeWhile (\<lambda>c. c \<noteq> CHR 0x00) tmp))"

text \<open>
  \<^verbatim>\<open>Message::decode(buffer, length)\<close>: the list is the \<open>length\<close> bytes at \<open>buffer\<close>. In
  each text-carrying case the string is extracted first and the header bytes 8 and 9 are
  read afterwards, as the statements are ordered in the source. The test of the key bytes,
  \<^verbatim>\<open>buffer[0] != 0x42 || buffer[1] != 0x45\<close>, is written as the two tests the
  short-circuit operator makes; the \<^verbatim>\<open>switch\<close> on the type byte is the chain of
  comparisons with the three constants, and the \<^verbatim>\<open>return\<close> after it is never reached.
\<close>

definition decode :: "uint8_t list \<Rightarrow> failure + message" where
  "decode buffer =
     (let len = length buffer in
      if len < 8 then Inl (ProtocolException EmptyPacket)
      else if buffer ! 0 \<noteq> 0x42 then Inl (ProtocolException KeyBytesNotMatched)
      else if buffer ! 1 \<noteq> 0x45 then Inl (ProtocolException KeyBytesNotMatched)
      else
        let test_crc32 = crc32 0 (take (size_sub len 6) (drop 6 buffer));
            actual_crc32 = load_le32 buffer 2
        in
          if test_crc32 \<noteq> actual_crc32
            then Inl (ProtocolException (Crc32CheckFailed test_crc32))
          else if buffer ! 6 \<noteq> 0xff
            then Inl (ProtocolException (UnexpectedByte (buffer ! 6)))
          else if buffer ! 7 = PKT_LOGIN then
            (if len = 9 then bindE (at buffer 8) (\<lambda>result. Inr (LoginResponse result))
             else
               bindE (extractStr buffer 10 (size_sub len 10)) (\<lambda>msg.
               bindE (at buffer 8) (\<lambda>nofParts.
               bindE (at buffer 9) (\<lambda>partIdx.
                 Inr (CommandPartialResponse nofParts partIdx msg)))))
          else if buffer ! 7 = PKT_CMD then
            bindE (extractStr buffer 9 (size_sub len 9)) (\<lambda>msg.
            bindE (at buffer 8) (\<lambda>seqnum.
              Inr (CommandResponse seqnum msg)))
          else if buffer ! 7 = PKT_SERVER then
            bindE (extractStr buffer 9 (size_sub len 9)) (\<lambda>msg.
            bindE (at buffer 8) (\<lambda>seqnum.
              Inr (ServerMessage seqnum msg)))
          else Inl (ProtocolException (UnknownMessageType (buffer ! 7))))"

subsection \<open>Encoding\<close>

text \<open>
  \<^verbatim>\<open>encodeHeader\<close>: \<^verbatim>\<open>std::fill(buffer+2, buffer+5, 0x00)\<close> clears the bytes 2, 3 and 4;
  byte 5 keeps what the buffer held and byte 7 is the subclass's to write.
\<close>

definition encodeHeader :: "uint8_t list \<Rightarrow> uint8_t list" where
  "encodeHeader buffer = buffer[0 := 0x42, 1 := 0x45, 2 := 0x00, 3 := 0x00, 4 := 0x00, 6 := 0xff]"

definition calculateCrc :: "uint8_t list \<Rightarrow> nat \<Rightarrow> uint8_t list" where
  "calculateCrc buffer len =
     store_le32 buffer 2 (crc32 0 (take (size_sub len 6) (drop 6 buffer)))"

text \<open>\<^verbatim>\<open>std::copy(s.begin(), s.end(), buffer + off)\<close>.\<close>

fun std_copy :: "uint8_t list \<Rightarrow> uint8_t list \<Rightarrow> nat \<Rightarrow> uint8_t list" where
  "std_copy [] buffer off = buffer"
| "std_copy (x # xs) buffer off = std_copy xs (buffer[off := x]) (Suc off)"

text \<open>
  The virtual \<^verbatim>\<open>encode(buffer)\<close>, one equation per subclass, returning the buffer as
  written and the length. The methods write without looking at the size of the caller's
  array (\<open>BUF_SIZE\<close> bytes in \<^verbatim>\<open>sendPacket\<close>); the highest index each one writes is
  its returned length minus one, so writing past the array is the first test of each
  equation.
\<close>

fun encode :: "message \<Rightarrow> uint8_t list \<Rightarrow> failure + uint8_t list \<times> nat" where
  "encode (Login mPassword) buffer =
     (if length buffer < 8 + length mPassword then Inl OutOfBounds
      else
        let len = 8;
            buffer = encodeHeader buffer;
            buffer = buffer[7 := PKT_LOGIN];
            buffer = std_copy (map to_uint8 mPassword) buffer len;
            len = len + length mPassword;
            buffer = calculateCrc buffer len
        in Inr (buffer, len))"
| "encode (LoginResponse mResult) buffer =
     (if length buffer < 9 then Inl OutOfBounds
      else
        let len = 9;
            buffer = encodeHeader buffer;
            buffer = buffer[7 := PKT_LOGIN];
            buffer = buffer[8 := mResult];
            buffer = calculateCrc buffer len
        in Inr (buffer, len))"
| "encode (ServerMessage mSeqNum mMsg) buffer =
     (if length buffer < 9 + length mMsg then Inl OutOfBounds
      else
        let len = 9;
            buffer = encodeHeader buffer;
            buffer = buffer[7 := PKT_SERVER];
            buffer = buffer[8 := mSeqNum];
            buffer = std_copy (map to_uint8 mMsg) buffer len;
            len = len + length mMsg;
            buffer = calculateCrc buffer len
        in Inr (buffer, len))"
| "encode (ServerAck mSeqNum) buffer =
     (if length buffer < 9 then Inl OutOfBounds
      else
        let len = 9;
            buffer = encodeHeader buffer;
            buffer = buffer[7 := PKT_SERVER];
            buffer = buffer[8 := mSeqNum];
            buffer = calculateCrc buffer len
        in Inr (buffer, len))"
| "encode (Command mSeqNum mCmdStr) buffer =
     (if length buffer < 9 + length mCmdStr then Inl OutOfBounds
      else
        let len = 9;
            buffer = encodeHeader buffer;
            buffer = buffer[7 := PKT_CMD];
            buffer = buffer[8 := mSeqNum];
            buffer = std_copy (map to_uint8 mCmdStr) buffer len;
            len = len + length mCmdStr;
            buffer = calculateCrc buffer len
        in Inr (buffer, len))"
| "encode (CommandResponse mSeqNum mMsg) buffer =
     (if length buffer < 9 + length mMsg then Inl OutOfBounds
      else
        let len = 9;
            buffer = encodeHeader buffer;
            buffer = buffer[7 := PKT_CMD];
            buffer = buffer[8 := mSeqNum];
            buffer = std_copy (map to_uint8 mMsg) buffer len;
            len = len + length mMsg;
            buffer = calculateCrc buffer len
        in Inr (buffer, len))"
| "encode (CommandPartialResponse mNofParts mPartIdx mMsg) buffer =
     (if length buffer < 10 + length mMsg then Inl OutOfBounds
      else
        let len = 10;
            buffer = encodeHeader buffer;
            buffer = buffer[7 := PKT_MULTI];
            buffer = buffer[8 := mNofParts];
            buffer = buffer[9 := mPartIdx];
            buffer = std_copy (map to_uint8 mMsg) buffer len;
            len = len + length mMsg;
            buffer = calculateCrc buffer len
        in Inr (buffer, len))"

subsection \<open>The sequence counter\<close>

text \<open>
  \<^verbatim>\<open>Message::getNextSeqNum\<close> is \<^verbatim>\<open>return mNextSeqNum++\<close> on the static counter, which
  starts at 0: it returns the old value and leaves the value plus one, modulo 256.
\<close>

definition getNextSeqNum :: "uint8_t \<Rightarrow> uint8_t \<times> uint8_t" where
  "getNextSeqNum counter = (counter, counter + 1)"

text \<open>
  The two constructors of \<^verbatim>\<open>Command\<close> that allocate: \<^verbatim>\<open>Command(const std::string & cmd)\<close>
  and the copy constructor \<^verbatim>\<open>Command(const Command & command)\<close>. Both initialise the
  base with \<^verbatim>\<open>ServerAck(MSG_CMD, getNextSeqNum())\<close>; the copy takes only \<open>mCmdStr\<close> from
  its argument. The copy constructor's argument is a \<^verbatim>\<open>Command\<close> by its type.
\<close>

definition Command_new :: "string \<Rightarrow> uint8_t \<Rightarrow> message \<times> uint8_t" where
  "Command_new cmd counter =
     (let (seqnum, counter) = getNextSeqNum counter in (Command seqnum cmd, counter))"

fun Command_copy :: "message \<Rightarrow> uint8_t \<Rightarrow> message \<times> uint8_t" where
  "Command_copy (Command mSeqNum mCmdStr) counter =
     (let (seqnum, counter) = getNextSeqNum counter in (Command seqnum mCmdStr, counter))"

text \<open>\<^verbatim>\<open>ServerAck::getSeqNum\<close> (inherited by \<^verbatim>\<open>Command\<close>) and \<^verbatim>\<open>ServerMessage::getSeqNum\<close>.\<close>

fun getSeqNum :: "message \<Rightarrow> uint8_t" where
  "getSeqNum (ServerAck mSeqNum) = mSeqNum"
| "getSeqNum (Command mSeqNum _) = mSeqNum"
| "getSeqNum (ServerMessage mSeqNum _) = mSeqNum"
| "getSeqNum (CommandResponse mSeqNum _) = mSeqNum"

subsection \<open>The session\<close>

text \<open>
  What \<^verbatim>\<open>run\<close> has in hand after \<^verbatim>\<open>getOpts\<close>, \<^verbatim>\<open>openConnection\<close> and \<^verbatim>\<open>readConfig\<close>: the
  two options, the password read from the configuration file and the command argument
  \<^verbatim>\<open>argv[optind+2]\<close>.
\<close>

record config =
  interactive :: bool
  quiet :: bool
  password :: string
  command :: string

text \<open>
  The transport and the console. One \<open>recv_event\<close> is what one call of
  \<^verbatim>\<open>receivePacket\<close> meets: \<^verbatim>\<open>select\<close> fails, \<^verbatim>\<open>select\<close> times out after 0.5 s, \<^verbatim>\<open>read\<close>
  fails, or a datagram is read. \<open>written\<close> lists the packets handed to \<^verbatim>\<open>write\<close> so far,
  oldest first; \<open>write_fails w k\<close> says that the call of \<^verbatim>\<open>write\<close> after \<open>k\<close> successful
  ones does not return the packet's length. \<open>cout\<close> lists what was written to
  \<^verbatim>\<open>std::cout\<close>, \<open>cin\<close> the words still to be read from \<^verbatim>\<open>std::cin\<close>.
\<close>

datatype recv_event = SelectError | SelectTimeout | ReadError | Datagram "uint8_t list"

record world =
  written :: "uint8_t list list"
  write_fails :: "nat \<Rightarrow> bool"
  cout :: "string list"
  cin :: "string list"
  mNextSeqNum :: uint8_t

definition endl :: string where
  "endl = [CHR 0x0A]"

text \<open>\<^verbatim>\<open>RconApp::log\<close>: the text goes to \<^verbatim>\<open>std::cout\<close> unless the quiet option is set.\<close>

definition log :: "config \<Rightarrow> string \<Rightarrow> world \<Rightarrow> world" where
  "log cfg msg w = (if quiet cfg then w else w\<lparr>cout := cout w @ [msg]\<rparr>)"

text \<open>
  \<^verbatim>\<open>RconApp::sendPacket\<close>: the message is encoded into an array of \<open>BUF_SIZE\<close> bytes and
  its first \<open>len\<close> bytes are written to the socket. The array is not initialised in the
  source; the model starts it from zeros (by lemma \<open>encode_wire_format\<close> the bytes
  written do not depend on what the array held).
\<close>

definition sendPacket :: "message \<Rightarrow> world \<Rightarrow> (failure + unit) \<times> world" where
  "sendPacket msg w =
     (case encode msg (replicate BUF_SIZE 0x00) of
        Inl e \<Rightarrow> (Inl e, w)
      | Inr (buf, len) \<Rightarrow>
          if write_fails w (length (written w))
            then (Inl (ProtocolException PartialWrite), w)
          else (Inr (), w\<lparr>written := written w @ [take len buf]\<rparr>))"

text \<open>
  \<^verbatim>\<open>RconApp::receivePacket\<close>, given what \<^verbatim>\<open>select\<close> and \<^verbatim>\<open>read\<close> do: \<^verbatim>\<open>read\<close> fills at most
  \<open>BUF_SIZE\<close> bytes, and the bytes read are decoded.
\<close>

definition receivePacket :: "recv_event \<Rightarrow> failure + message" where
  "receivePacket ev =
     (case ev of
        SelectError \<Rightarrow> Inl (ProtocolException SelectFailed)
      | SelectTimeout \<Rightarrow> Inl (ProtocolException Timeout)
      | ReadError \<Rightarrow> Inl (ProtocolException SocketReadError)
      | Datagram bytes \<Rightarrow> decode (take BUF_SIZE bytes))"

text \<open>
  The inner \<^verbatim>\<open>do ... while\<close> of \<^verbatim>\<open>run\<close> ("Handle responses"), over the events still to
  come; when none is left nothing arrives any more and \<^verbatim>\<open>select\<close> times out. The result
  is the outcome, the events not consumed and the world. The \<^verbatim>\<open>switch\<close> has no default:
  a message of another type does nothing and, like a \<^verbatim>\<open>CommandResponse\<close>, ends the loop.
\<close>

fun handle_responses ::
  "config \<Rightarrow> recv_event list \<Rightarrow> world \<Rightarrow> (failure + unit) \<times> recv_event list \<times> world" where
  "handle_responses cfg [] w = (Inl (ProtocolException Timeout), [], w)"
| "handle_responses cfg (ev # evs) w =
     (case receivePacket ev of
        Inl e \<Rightarrow> (Inl e, evs, w)
      | Inr rcvdMsg \<Rightarrow>
          (case rcvdMsg of
             CommandResponse seqNum msg \<Rightarrow> (Inr (), evs, log cfg (msg @ endl) w)
           | CommandPartialResponse nofParts partIdx msg \<Rightarrow>
               handle_responses cfg evs (log cfg (msg @ endl) w)
           | ServerMessage seqNum msg \<Rightarrow>
               (case sendPacket (ServerAck seqNum) (log cfg (msg @ endl) w) of
                  (Inl e, w') \<Rightarrow> (Inl e, evs, w')
                | (Inr _, w') \<Rightarrow> handle_responses cfg evs w')
           | _ \<Rightarrow> (Inr (), evs, w)))"

text \<open>\<^verbatim>\<open>std::cin >> cmdStr\<close> into a fresh string: the next word, or nothing at end of input.\<close>

definition read_word :: "world \<Rightarrow> string \<times> world" where
  "read_word w = (case cin w of [] \<Rightarrow> ([], w) | x # xs \<Rightarrow> (x, w\<lparr>cin := xs\<rparr>))"

text \<open>
  The outer \<^verbatim>\<open>do ... while (interactive)\<close> of \<^verbatim>\<open>run\<close> ("Execute remote command"). Every
  round that does not leave at \<^verbatim>\<open>quit\<close>/\<^verbatim>\<open>exit\<close> waits for at least one reply, so the
  rounds are bounded by the events to come.
\<close>

function execute_commands ::
  "config \<Rightarrow> recv_event list \<Rightarrow> world \<Rightarrow> (failure + unit) \<times> recv_event list \<times> world" where
  "execute_commands cfg evs w =
     (let (cmdStr, w1) =
            (if interactive cfg then read_word (w\<lparr>cout := cout w @ [''> '']\<rparr>)
             else (command cfg, w))
      in
        if cmdStr = ''quit'' \<or> cmdStr = ''exit'' then (Inr (), evs, w1)
        else
          let (cmd, counter) = Command_new cmdStr (mNextSeqNum w1);
              w2 = w1\<lparr>mNextSeqNum := counter\<rparr>
          in
            case sendPacket cmd w2 of
              (Inl e, w3) \<Rightarrow> (Inl e, evs, w3)
            | (Inr _, w3) \<Rightarrow>
                (case handle_responses cfg evs w3 of
                   (Inl e, evs', w4) \<Rightarrow> (Inl e, evs', w4)
                 | (Inr _, evs', w4) \<Rightarrow>
                     if interactive cfg then execute_commands cfg evs' w4
                     else (Inr (), evs', w4)))"
  by pat_completeness auto
termination
proof -
  have shrink: "length es' < length es"
    if "handle_responses cfg es v = (Inr r, es', v')" for cfg es es' v v' r
    using that
  proof (induction es arbitrary: v)
    case Nil
    then show ?case by simp
  next
    case (Cons ev es)
    then show ?case
      by (fastforce split: sum.splits message.splits prod.splits)
  qed
  show ?thesis
    by (relation "measure (\<lambda>(cfg, evs, w). length evs)") (auto dest: shrink [OF sym])
qed

declare execute_commands.simps [simp del]

text \<open>
  \<^verbatim>\<open>RconApp::run\<close> from the login on. The test of the reply's type tag and the cast to
  \<^verbatim>\<open>LoginResponse\<close> are the case distinction on the message. The hint for the interactive
  mode goes to \<^verbatim>\<open>std::cout\<close> directly; \<^verbatim>\<open>closeConnection\<close> at the end has no effect on
  the model's state.
\<close>

definition interactive_hint :: string where
  "interactive_hint =
     ''Type '' @ [CHR 0x27] @ ''exit'' @ [CHR 0x27] @ '' or '' @ [CHR 0x27] @ ''quit''
       @ [CHR 0x27] @ '' to exit interactive mode.'' @ endl"

definition run ::
  "config \<Rightarrow> recv_event list \<Rightarrow> world \<Rightarrow> (failure + unit) \<times> recv_event list \<times> world" where
  "run cfg evs w =
     (case sendPacket (Login (password cfg)) w of
        (Inl e, w1) \<Rightarrow> (Inl e, evs, w1)
      | (Inr _, w1) \<Rightarrow>
          (case evs of
             [] \<Rightarrow> (Inl (ProtocolException Timeout), [], w1)
           | ev # evs1 \<Rightarrow>
               (case receivePacket ev of
                  Inl e \<Rightarrow> (Inl e, evs1, w1)
                | Inr rcvdMsg \<Rightarrow>
                    (case rcvdMsg of
                       LoginResponse result \<Rightarrow>
                         if result = 0 then (Inl (ProtocolException WrongPassword), evs1, w1)
                         else
                           execute_commands cfg evs1
                             (if interactive cfg then w1\<lparr>cout := cout w1 @ [interactive_hint]\<rparr>
                              else w1)
                     | _ \<Rightarrow> (Inl (ProtocolException UnexpectedMessage), evs1, w1)))))"

subsection \<open>The wire format of the specification\<close>

text \<open>
  The layout the specification gives for a packet (section 4.1), written down from its
  words for comparison with \<open>encode\<close>: the magic bytes \<open>0x42 0x45\<close>, the checksum of
  everything from offset 6 on as four bytes, least significant first, the marker \<open>0xFF\<close>,
  the type byte, and the payload of the variant as the specification's table lists it.
\<close>

definition le32_bytes :: "uint32_t \<Rightarrow> uint8_t list" where
  "le32_bytes v = [ucast v, ucast (drop_bit 8 v), ucast (drop_bit 16 v), ucast (drop_bit 24 v)]"

definition frame :: "uint8_t \<Rightarrow> uint8_t list \<Rightarrow> uint8_t list" where
  "frame ty payload =
     [0x42, 0x45] @ le32_bytes (crc32 0 (0xff # ty # payload)) @ 0xff # ty # payload"

fun wire_format :: "message \<Rightarrow> uint8_t list" where
  "wire_format (Login pw) = frame 0 (map to_uint8 pw)"
| "wire_format (LoginResponse result) = frame 0 [result]"
| "wire_format (Command sequenceNumber text) = frame 1 (sequenceNumber # map to_uint8 text)"
| "wire_format (CommandResponse sequenceNumber text) =
     frame 1 (sequenceNumber # map to_uint8 text)"
| "wire_format (CommandPartialResponse totalParts partIndex text) =
     frame 0 (totalParts # partIndex # map to_uint8 text)"
| "wire_format (ServerMessage sequenceNumber text) =
     frame 2 (sequenceNumber # map to_uint8 text)"
| "wire_format (ServerAck sequenceNumber) = frame 2 [sequenceNumber]"

text \<open>The string a message carries: the password, the command or the text.\<close>

fun message_text :: "message \<Rightarrow> string" where
  "message_text (Login mPassword) = mPassword"
| "message_text (LoginResponse _) = []"
| "message_text (Command _ mCmdStr) = mCmdStr"
| "message_text (CommandResponse _ mMsg) = mMsg"
| "message_text (CommandPartialResponse _ _ mMsg) = mMsg"
| "message_text (ServerMessage _ mMsg) = mMsg"
| "message_text (ServerAck _) = []"

section \<open>Lemmas about the codec\<close>

subsection \<open>Bytes, lists and the checksum field\<close>

lemma le32_roundtrip:
  "(ucast (ucast v :: uint8_t) :: uint32_t) OR push_bit 8 (ucast (ucast (drop_bit 8 v) :: uint8_t))
     OR push_bit 16 (ucast (ucast (drop_bit 16 v) :: uint8_t))
     OR push_bit 24 (ucast (ucast (drop_bit 24 v) :: uint8_t)) = (v :: uint32_t)"
proof (rule bit_word_eqI)
  fix n :: nat
  assume "n < LENGTH(32)"
  then have n: "n < 32" by simp
  consider "n < 8" | "8 \<le> n" "n < 16" | "16 \<le> n" "n < 24" | "24 \<le> n" "n < 32"
    using n by linarith
  then show "bit (ucast (ucast v :: uint8_t) OR push_bit 8 (ucast (ucast (drop_bit 8 v) :: uint8_t))
     OR push_bit 16 (ucast (ucast (drop_bit 16 v) :: uint8_t))
     OR push_bit 24 (ucast (ucast (drop_bit 24 v) :: uint8_t)) :: uint32_t) n = bit v n"
    by cases (auto simp add: bit_simps)
qed

lemma split8:
  "8 \<le> length (xs :: 'a list) \<Longrightarrow> \<exists>a0 a1 a2 a3 a4 a5 a6 a7 r. xs = a0 # a1 # a2 # a3 # a4 # a5 # a6 # a7 # r"
  by (simp add: eval_nat_numeral Suc_le_length_iff) blast

lemma std_copy_eq:
  "off + length xs \<le> length buffer \<Longrightarrow>
   std_copy xs buffer off = take off buffer @ xs @ drop (off + length xs) buffer"
proof (induction xs arbitrary: buffer off)
  case Nil
  then show ?case by simp
next
  case (Cons x xs)
  from Cons.prems have lt: "off < length buffer" by simp
  have "std_copy (x # xs) buffer off = std_copy xs (buffer[off := x]) (Suc off)" by simp
  also have "\<dots> = take (Suc off) (buffer[off := x]) @ xs @ drop (Suc off + length xs) (buffer[off := x])"
    using Cons.prems by (intro Cons.IH) simp
  also have "take (Suc off) (buffer[off := x]) = take off buffer @ [x]"
    using lt by (simp add: take_Suc_conv_app_nth)
  also have "drop (Suc off + length xs) (buffer[off := x]) = drop (off + length (x # xs)) buffer"
    by simp
  finally show ?case by simp
qed

lemma list_update_Cons_numeral:
  "(x # xs)[numeral k := y] = x # xs[pred_numeral k := y]"
  by (simp add: numeral_eq_Suc)

lemma take_Cons_numeral_add:
  "take (numeral k + n) (x # xs) = x # take (pred_numeral k + n) xs"
  by (simp add: numeral_eq_Suc)

lemma drop_Cons_numeral_add:
  "drop (numeral k + n) (x # xs) = drop (pred_numeral k + n) xs"
  by (simp add: numeral_eq_Suc)

lemma take_Cons_one_add: "take (1 + n) (x # xs) = x # take n xs"
  by simp

lemma drop_Cons_one_add: "drop (1 + n) (x # xs) = drop n xs"
  by simp

lemmas cons_arith = list_update_Cons_numeral take_Cons_numeral_add drop_Cons_numeral_add
  take_Cons_one_add drop_Cons_one_add

subsection \<open>\<open>encode\<close> writes the wire format\<close>

lemma length_frame: "length (frame ty payload) = 8 + length payload"
  by (simp add: frame_def le32_bytes_def)

lemma header_written:
  assumes "buffer = a0 # a1 # a2 # a3 # a4 # a5 # a6 # a7 # r"
  shows "(encodeHeader buffer)[7 := ty] = 0x42 # 0x45 # 0 # 0 # 0 # a5 # 0xff # ty # r"
  using assms by (simp add: encodeHeader_def list_update_Cons_numeral)

lemma crc_written:
  assumes "length body = n"
  shows "take (8 + n) (calculateCrc (0x42 # 0x45 # c2 # c3 # c4 # c5 # 0xff # ty # body @ rest) (8 + n))
           = frame ty body"
  using assms
  by (simp add: calculateCrc_def store_le32_def size_sub_def list_update_Cons_numeral
      frame_def le32_bytes_def cons_arith)

lemma split9:
  assumes "9 \<le> length (xs :: 'a list)"
  obtains a0 a1 a2 a3 a4 a5 a6 a7 a8 r where "xs = a0 # a1 # a2 # a3 # a4 # a5 # a6 # a7 # a8 # r"
proof -
  from assms have "8 \<le> length xs" by simp
  then obtain a0 a1 a2 a3 a4 a5 a6 a7 r'
    where xs: "xs = a0 # a1 # a2 # a3 # a4 # a5 # a6 # a7 # r'"
    using split8 by blast
  with assms obtain a8 r where "r' = a8 # r" by (cases r') auto
  with xs that show thesis by simp
qed

lemma split10:
  assumes "10 \<le> length (xs :: 'a list)"
  obtains a0 a1 a2 a3 a4 a5 a6 a7 a8 a9 r
  where "xs = a0 # a1 # a2 # a3 # a4 # a5 # a6 # a7 # a8 # a9 # r"
proof -
  from assms have "9 \<le> length xs" by simp
  then obtain a0 a1 a2 a3 a4 a5 a6 a7 a8 r'
    where xs: "xs = a0 # a1 # a2 # a3 # a4 # a5 # a6 # a7 # a8 # r'"
    by (rule split9)
  with assms obtain a9 r where "r' = a9 # r" by (cases r') auto
  with xs that show thesis by simp
qed

lemma frame0:
  assumes "8 + length t \<le> length buffer"
  shows "take (8 + length t)
           (calculateCrc (std_copy t ((encodeHeader buffer)[7 := ty]) 8) (8 + length t))
         = frame ty t"
proof -
  from assms have "8 \<le> length buffer" by simp
  then obtain a0 a1 a2 a3 a4 a5 a6 a7 r
    where buffer: "buffer = a0 # a1 # a2 # a3 # a4 # a5 # a6 # a7 # r"
    using split8 by blast
  with assms have r: "length t \<le> length r" by simp
  have "std_copy t (0x42 # 0x45 # 0 # 0 # 0 # a5 # 0xff # ty # r) 8
      = 0x42 # 0x45 # 0 # 0 # 0 # a5 # 0xff # ty # t @ drop (length t) r"
    using r by (simp add: std_copy_eq cons_arith)
  then show ?thesis
    using crc_written [of t "length t"] by (simp add: header_written [OF buffer])
qed

lemma frame1:
  assumes "9 + length t \<le> length buffer"
  shows "take (9 + length t)
           (calculateCrc (std_copy t ((encodeHeader buffer)[7 := ty, 8 := b8]) 9) (9 + length t))
         = frame ty (b8 # t)"
proof -
  from assms have "9 \<le> length buffer" by simp
  then obtain a0 a1 a2 a3 a4 a5 a6 a7 a8 r
    where buffer: "buffer = a0 # a1 # a2 # a3 # a4 # a5 # a6 # a7 # a8 # r"
    by (rule split9)
  with assms have r: "length t \<le> length r" by simp
  have "std_copy t (0x42 # 0x45 # 0 # 0 # 0 # a5 # 0xff # ty # b8 # r) 9
      = 0x42 # 0x45 # 0 # 0 # 0 # a5 # 0xff # ty # b8 # t @ drop (length t) r"
    using r by (simp add: std_copy_eq cons_arith)
  moreover have "9 + length t = 8 + length (b8 # t)" by simp
  ultimately show ?thesis
    using crc_written [of "b8 # t" "length (b8 # t)" c2 c3 c4 c5 ty "drop (length t) r" for c2 c3 c4 c5]
    by (simp only: header_written [OF buffer] list_update_Cons_numeral) (simp add: cons_arith)
qed

lemma frame2:
  assumes "10 + length t \<le> length buffer"
  shows "take (10 + length t)
           (calculateCrc (std_copy t ((encodeHeader buffer)[7 := ty, 8 := b8, 9 := b9]) 10)
              (10 + length t))
         = frame ty (b8 # b9 # t)"
proof -
  from assms have "10 \<le> length buffer" by simp
  then obtain a0 a1 a2 a3 a4 a5 a6 a7 a8 a9 r
    where buffer: "buffer = a0 # a1 # a2 # a3 # a4 # a5 # a6 # a7 # a8 # a9 # r"
    by (rule split10)
  with assms have r: "length t \<le> length r" by simp
  have "std_copy t (0x42 # 0x45 # 0 # 0 # 0 # a5 # 0xff # ty # b8 # b9 # r) 10
      = 0x42 # 0x45 # 0 # 0 # 0 # a5 # 0xff # ty # b8 # b9 # t @ drop (length t) r"
    using r by (simp add: std_copy_eq cons_arith)
  moreover have "10 + length t = 8 + length (b8 # b9 # t)" by simp
  ultimately show ?thesis
    using crc_written [of "b8 # b9 # t" "length (b8 # b9 # t)" c2 c3 c4 c5 ty "drop (length t) r"
        for c2 c3 c4 c5]
    by (simp only: header_written [OF buffer] list_update_Cons_numeral) (simp add: cons_arith)
qed

lemma length_wire_format:
  "length (wire_format m) =
     (case m of Login pw \<Rightarrow> 8 + length pw | LoginResponse _ \<Rightarrow> 9
      | Command _ t \<Rightarrow> 9 + length t | CommandResponse _ t \<Rightarrow> 9 + length t
      | CommandPartialResponse _ _ t \<Rightarrow> 10 + length t
      | ServerMessage _ t \<Rightarrow> 9 + length t | ServerAck _ \<Rightarrow> 9)"
  by (cases m) (simp_all add: length_frame)

lemma encode_wire_format:
  assumes "length (wire_format m) \<le> length buffer"
  shows "\<exists>buf'. encode m buffer = Inr (buf', length (wire_format m)) \<and>
           take (length (wire_format m)) buf' = wire_format m"
proof (cases m)
  case (Login pw)
  with assms show ?thesis
    using frame0 [of "map to_uint8 pw" buffer PKT_LOGIN]
    by (simp add: length_frame Let_def PKT_LOGIN_def)
next
  case (LoginResponse r)
  with assms show ?thesis
    using frame1 [of "[]" buffer PKT_LOGIN r]
    by (simp add: length_frame Let_def PKT_LOGIN_def)
next
  case (Command s t)
  with assms show ?thesis
    using frame1 [of "map to_uint8 t" buffer PKT_CMD s]
    by (simp add: length_frame Let_def PKT_CMD_def)
next
  case (CommandResponse s t)
  with assms show ?thesis
    using frame1 [of "map to_uint8 t" buffer PKT_CMD s]
    by (simp add: length_frame Let_def PKT_CMD_def)
next
  case (CommandPartialResponse n i t)
  with assms show ?thesis
    using frame2 [of "map to_uint8 t" buffer PKT_MULTI n i]
    by (simp add: length_frame Let_def PKT_MULTI_def)
next
  case (ServerMessage s t)
  with assms show ?thesis
    using frame1 [of "map to_uint8 t" buffer PKT_SERVER s]
    by (simp add: length_frame Let_def PKT_SERVER_def)
next
  case (ServerAck s)
  with assms show ?thesis
    using frame1 [of "[]" buffer PKT_SERVER s]
    by (simp add: length_frame Let_def PKT_SERVER_def)
qed

lemma encode_overflow:
  "length buffer < length (wire_format m) \<Longrightarrow> encode m buffer = Inl OutOfBounds"
  by (cases m) (simp_all add: length_frame)

declare encode.simps [simp del]

subsection \<open>\<open>decode\<close> on a well-framed packet\<close>

lemma takeWhile_terminator:
  "takeWhile (\<lambda>c. c \<noteq> z) (xs @ [z]) = takeWhile (\<lambda>c. c \<noteq> z) xs"
  by (induction xs) simp_all

lemma extractStr_ok:
  assumes "len < PTRDIFF_MAX" and "off + len \<le> length buffer"
  shows "extractStr buffer off len =
           Inr (takeWhile (\<lambda>c. c \<noteq> CHR 0x00) (map to_char (take len (drop off buffer))))"
proof -
  from assms(1) have "len + 1 < 2 ^ 64" by (simp add: PTRDIFF_MAX_def)
  then have "size_add len 1 = len + 1" by (simp add: size_add_def)
  with assms show ?thesis
    by (simp add: extractStr_def Let_def takeWhile_terminator del: takeWhile_append)
qed

lemma frame_checks:
  "decode (frame ty payload) =
     (let buffer = frame ty payload; len = 8 + length payload in
      if ty = PKT_LOGIN then
        (if len = 9 then bindE (at buffer 8) (\<lambda>result. Inr (LoginResponse result))
         else
           bindE (extractStr buffer 10 (size_sub len 10)) (\<lambda>msg.
           bindE (at buffer 8) (\<lambda>nofParts.
           bindE (at buffer 9) (\<lambda>partIdx.
             Inr (CommandPartialResponse nofParts partIdx msg)))))
      else if ty = PKT_CMD then
        bindE (extractStr buffer 9 (size_sub len 9)) (\<lambda>msg.
        bindE (at buffer 8) (\<lambda>seqnum.
          Inr (CommandResponse seqnum msg)))
      else if ty = PKT_SERVER then
        bindE (extractStr buffer 9 (size_sub len 9)) (\<lambda>msg.
        bindE (at buffer 8) (\<lambda>seqnum.
          Inr (ServerMessage seqnum msg)))
      else Inl (ProtocolException (UnknownMessageType ty)))"
proof -
  have crc: "load_le32 (frame ty payload) 2 = crc32 0 (0xff # ty # payload)"
    by (simp add: load_le32_def frame_def le32_bytes_def le32_roundtrip)
  have body: "take (size_sub (8 + length payload) 6) (drop 6 (frame ty payload)) = 0xff # ty # payload"
    by (simp add: frame_def le32_bytes_def size_sub_def)
  have hd: "frame ty payload ! 0 = 0x42" "frame ty payload ! 1 = 0x45"
    "frame ty payload ! 6 = 0xff" "frame ty payload ! 7 = ty"
    by (simp_all add: frame_def le32_bytes_def)
  show ?thesis
    unfolding decode_def Let_def length_frame
    by (simp only: crc body hd) simp
qed

lemma to_char_to_uint8: "to_char (to_uint8 c) = c"
  by (simp add: to_char_def to_uint8_def unat_of_nat)

lemma to_uint8_to_char: "to_uint8 (to_char b) = b"
proof -
  have "unat b < 2 ^ LENGTH(8)" by (rule unsigned_less)
  then have "unat b mod 256 = unat b" by simp
  then show ?thesis by (simp add: to_char_def to_uint8_def)
qed

lemma to_char_zero: "to_char 0 = CHR 0x00"
  by (simp add: to_char_def char_of_def)

lemma to_uint8_zero: "to_uint8 c = 0 \<longleftrightarrow> c = CHR 0x00"
proof
  assume "to_uint8 c = 0"
  then have "to_char (to_uint8 c) = to_char 0" by simp
  then show "c = CHR 0x00" by (simp add: to_char_to_uint8 to_char_zero)
next
  assume "c = CHR 0x00"
  then show "to_uint8 c = 0" by (simp add: to_uint8_def)
qed

lemma decode_frame_LoginResponse:
  "decode (frame 0 [result]) = Inr (LoginResponse result)"
  by (simp add: frame_checks PKT_LOGIN_def) (simp add: frame_def le32_bytes_def at_def bindE_def)

lemma decode_frame_multi:
  assumes "length bs < PTRDIFF_MAX"
  shows "decode (frame 0 (nofParts # partIdx # bs)) =
           Inr (CommandPartialResponse nofParts partIdx
                  (takeWhile (\<lambda>c. c \<noteq> CHR 0x00) (map to_char bs)))"
proof -
  let ?buffer = "frame 0 (nofParts # partIdx # bs)"
  have "extractStr ?buffer 10 (length bs) =
          Inr (takeWhile (\<lambda>c. c \<noteq> CHR 0x00) (map to_char (take (length bs) (drop 10 ?buffer))))"
    using assms by (intro extractStr_ok) (simp_all add: length_frame)
  moreover have "drop 10 ?buffer = bs" "at ?buffer 8 = Inr nofParts" "at ?buffer 9 = Inr partIdx"
    by (simp_all add: frame_def le32_bytes_def at_def)
  moreover have "size_sub (8 + length (nofParts # partIdx # bs)) 10 = length bs"
    by (simp add: size_sub_def)
  ultimately show ?thesis
    by (simp add: frame_checks PKT_LOGIN_def bindE_def Let_def)
qed

lemma decode_frame_cmd:
  assumes "length bs < PTRDIFF_MAX"
  shows "decode (frame 1 (seqnum # bs)) =
           Inr (CommandResponse seqnum (takeWhile (\<lambda>c. c \<noteq> CHR 0x00) (map to_char bs)))"
proof -
  let ?buffer = "frame 1 (seqnum # bs)"
  have "extractStr ?buffer 9 (length bs) =
          Inr (takeWhile (\<lambda>c. c \<noteq> CHR 0x00) (map to_char (take (length bs) (drop 9 ?buffer))))"
    using assms by (intro extractStr_ok) (simp_all add: length_frame)
  moreover have "drop 9 ?buffer = bs" "at ?buffer 8 = Inr seqnum"
    by (simp_all add: frame_def le32_bytes_def at_def)
  moreover have "size_sub (8 + length (seqnum # bs)) 9 = length bs"
    by (simp add: size_sub_def)
  ultimately show ?thesis
    by (simp add: frame_checks PKT_LOGIN_def PKT_CMD_def bindE_def Let_def)
qed

lemma decode_frame_server:
  assumes "length bs < PTRDIFF_MAX"
  shows "decode (frame 2 (seqnum # bs)) =
           Inr (ServerMessage seqnum (takeWhile (\<lambda>c. c \<noteq> CHR 0x00) (map to_char bs)))"
proof -
  let ?buffer = "frame 2 (seqnum # bs)"
  have "extractStr ?buffer 9 (length bs) =
          Inr (takeWhile (\<lambda>c. c \<noteq> CHR 0x00) (map to_char (take (length bs) (drop 9 ?buffer))))"
    using assms by (intro extractStr_ok) (simp_all add: length_frame)
  moreover have "drop 9 ?buffer = bs" "at ?buffer 8 = Inr seqnum"
    by (simp_all add: frame_def le32_bytes_def at_def)
  moreover have "size_sub (8 + length (seqnum # bs)) 9 = length bs"
    by (simp add: size_sub_def)
  ultimately show ?thesis
    by (simp add: frame_checks PKT_LOGIN_def PKT_CMD_def PKT_SERVER_def bindE_def Let_def)
qed

lemma text_roundtrip:
  assumes "CHR 0x00 \<notin> set t"
  shows "takeWhile (\<lambda>c. c \<noteq> CHR 0x00) (map (to_char \<circ> to_uint8) t) = t"
proof -
  have "map (to_char \<circ> to_uint8) t = t"
    by (simp add: to_char_to_uint8 comp_def)
  moreover from assms have "takeWhile (\<lambda>c. c \<noteq> CHR 0x00) t = t"
    by (intro takeWhile_eq_all_conv [THEN iffD2]) auto
  ultimately show ?thesis by simp
qed

lemma encode_Inr_wire_format:
  assumes "encode m buffer = Inr (buffer', len)"
  shows "len = length (wire_format m) \<and> len \<le> length buffer \<and> take len buffer' = wire_format m"
proof -
  have fits: "length (wire_format m) \<le> length buffer"
  proof (rule ccontr)
    assume "\<not> length (wire_format m) \<le> length buffer"
    then have "encode m buffer = Inl OutOfBounds"
      by (intro encode_overflow) simp
    with assms show False by simp
  qed
  from encode_wire_format [OF fits] assms fits show ?thesis
    by auto
qed

subsection \<open>\<open>decode\<close> on every input\<close>

text \<open>
  Past the framing checks \<open>decode\<close> is the dispatch on the type byte; the text it
  returns is the payload up to the first \<open>0x00\<close>.
\<close>

lemma extractStr_rest:
  assumes "off \<le> length buffer" and "length buffer < PTRDIFF_MAX"
  shows "extractStr buffer off (size_sub (length buffer) off) =
           Inr (takeWhile (\<lambda>c. c \<noteq> CHR 0x00) (map to_char (drop off buffer)))"
proof -
  from assms(1) have sub: "size_sub (length buffer) off = length buffer - off"
    by (simp add: size_sub_def)
  from assms have "length buffer - off < PTRDIFF_MAX"
    by simp
  moreover from assms(1) have "off + (length buffer - off) \<le> length buffer"
    by simp
  ultimately show ?thesis
    unfolding sub by (simp add: extractStr_ok)
qed

lemma decode_checked:
  assumes "8 \<le> length buffer" and "buffer ! 0 = 0x42" and "buffer ! 1 = 0x45"
    and "crc32 0 (drop 6 buffer) = load_le32 buffer 2" and "buffer ! 6 = 0xff"
  shows "decode buffer =
     (if buffer ! 7 = PKT_LOGIN then
        (if length buffer = 9 then bindE (at buffer 8) (\<lambda>result. Inr (LoginResponse result))
         else
           bindE (extractStr buffer 10 (size_sub (length buffer) 10)) (\<lambda>msg.
           bindE (at buffer 8) (\<lambda>nofParts.
           bindE (at buffer 9) (\<lambda>partIdx.
             Inr (CommandPartialResponse nofParts partIdx msg)))))
      else if buffer ! 7 = PKT_CMD then
        bindE (extractStr buffer 9 (size_sub (length buffer) 9)) (\<lambda>msg.
        bindE (at buffer 8) (\<lambda>seqnum.
          Inr (CommandResponse seqnum msg)))
      else if buffer ! 7 = PKT_SERVER then
        bindE (extractStr buffer 9 (size_sub (length buffer) 9)) (\<lambda>msg.
        bindE (at buffer 8) (\<lambda>seqnum.
          Inr (ServerMessage seqnum msg)))
      else Inl (ProtocolException (UnknownMessageType (buffer ! 7))))"
proof -
  from assms(1) have body: "take (size_sub (length buffer) 6) (drop 6 buffer) = drop 6 buffer"
    by (simp add: size_sub_def)
  from assms(1) have long: "\<not> length buffer < 8"
    by simp
  show ?thesis
    unfolding decode_def Let_def
    by (simp only: body long assms(2-5)) simp
qed

lemma decode_dispatch:
  assumes "8 \<le> length buffer" and "buffer ! 0 = 0x42" and "buffer ! 1 = 0x45"
    and "crc32 0 (drop 6 buffer) = load_le32 buffer 2" and "buffer ! 6 = 0xff"
    and "length buffer < PTRDIFF_MAX"
  shows "buffer ! 7 = 0 \<Longrightarrow> length buffer = 9 \<Longrightarrow>
           decode buffer = Inr (LoginResponse (buffer ! 8))"
    and "buffer ! 7 = 0 \<Longrightarrow> 9 < length buffer \<Longrightarrow>
           decode buffer =
             Inr (CommandPartialResponse (buffer ! 8) (buffer ! 9)
                    (takeWhile (\<lambda>c. c \<noteq> CHR 0x00) (map to_char (drop 10 buffer))))"
    and "buffer ! 7 = 1 \<Longrightarrow> 9 \<le> length buffer \<Longrightarrow>
           decode buffer =
             Inr (CommandResponse (buffer ! 8)
                    (takeWhile (\<lambda>c. c \<noteq> CHR 0x00) (map to_char (drop 9 buffer))))"
    and "buffer ! 7 = 2 \<Longrightarrow> 9 \<le> length buffer \<Longrightarrow>
           decode buffer =
             Inr (ServerMessage (buffer ! 8)
                    (takeWhile (\<lambda>c. c \<noteq> CHR 0x00) (map to_char (drop 9 buffer))))"
proof -
  note checked = decode_checked [OF assms(1-5)]
  show "buffer ! 7 = 0 \<Longrightarrow> length buffer = 9 \<Longrightarrow>
           decode buffer = Inr (LoginResponse (buffer ! 8))"
    by (simp add: checked PKT_LOGIN_def at_def bindE_def)
  show "buffer ! 7 = 0 \<Longrightarrow> 9 < length buffer \<Longrightarrow>
           decode buffer =
             Inr (CommandPartialResponse (buffer ! 8) (buffer ! 9)
                    (takeWhile (\<lambda>c. c \<noteq> CHR 0x00) (map to_char (drop 10 buffer))))"
    using assms(6) extractStr_rest [of 10 buffer]
    by (simp add: checked PKT_LOGIN_def at_def bindE_def)
  show "buffer ! 7 = 1 \<Longrightarrow> 9 \<le> length buffer \<Longrightarrow>
           decode buffer =
             Inr (CommandResponse (buffer ! 8)
                    (takeWhile (\<lambda>c. c \<noteq> CHR 0x00) (map to_char (drop 9 buffer))))"
    using assms(6) extractStr_rest [of 9 buffer]
    by (simp add: checked PKT_LOGIN_def PKT_CMD_def at_def bindE_def)
  show "buffer ! 7 = 2 \<Longrightarrow> 9 \<le> length buffer \<Longrightarrow>
           decode buffer =
             Inr (ServerMessage (buffer ! 8)
                    (takeWhile (\<lambda>c. c \<noteq> CHR 0x00) (map to_char (drop 9 buffer))))"
    using assms(6) extractStr_rest [of 9 buffer]
    by (simp add: checked PKT_LOGIN_def PKT_CMD_def PKT_SERVER_def at_def bindE_def)
qed

text \<open>
  \<open>decode\<close> reaches outside the packet for the header-only packets of type 1 or 2 that
  pass the framing checks, and for no other input.
\<close>

lemma decode_OutOfBounds_iff:
  "decode buffer = Inl OutOfBounds \<longleftrightarrow>
     length buffer = 8 \<and> buffer ! 0 = 0x42 \<and> buffer ! 1 = 0x45
     \<and> crc32 0 (drop 6 buffer) = load_le32 buffer 2 \<and> buffer ! 6 = 0xff
     \<and> (buffer ! 7 = 1 \<or> buffer ! 7 = 2)"
proof (cases "8 \<le> length buffer \<and> buffer ! 0 = 0x42 \<and> buffer ! 1 = 0x45
     \<and> crc32 0 (drop 6 buffer) = load_le32 buffer 2 \<and> buffer ! 6 = 0xff")
  case False
  then have "take (size_sub (length buffer) 6) (drop 6 buffer) = drop 6 buffer
      \<or> length buffer < 8"
    by (auto simp add: size_sub_def)
  with False show ?thesis
    by (auto simp add: decode_def Let_def)
next
  case True
  note checked = decode_checked [of buffer]
  consider "length buffer = 8" | "length buffer = 9" | "10 \<le> length buffer"
    using True by linarith
  then show ?thesis
  proof cases
    case 1
    have "size_sub 8 10 = 2 ^ 64 - 2" "size_sub 8 9 = 2 ^ 64 - 1"
      by (simp_all add: size_sub_def)
    with 1 True show ?thesis
      by (simp add: checked bindE_def extractStr_def at_def size_add_def PTRDIFF_MAX_def
          PKT_LOGIN_def PKT_CMD_def PKT_SERVER_def)
  next
    case 2
    then have "size_sub (length buffer) 9 = 0"
      by (simp add: size_sub_def)
    with 2 True show ?thesis
      by (simp add: checked bindE_def extractStr_def at_def size_add_def PTRDIFF_MAX_def
          PKT_LOGIN_def PKT_CMD_def PKT_SERVER_def)
  next
    case 3
    then have "10 + size_sub (length buffer) 10 = length buffer"
      "9 + size_sub (length buffer) 9 = length buffer"
      by (simp_all add: size_sub_def)
    with 3 True show ?thesis
      by (simp add: checked bindE_def extractStr_def at_def
          PKT_LOGIN_def PKT_CMD_def PKT_SERVER_def)
  qed
qed

text \<open>A \<^verbatim>\<open>ProtocolException\<close> is thrown exactly when a framing check fails.\<close>

lemma decode_ProtocolException_iff:
  "(\<exists>e. decode buffer = Inl (ProtocolException e)) \<longleftrightarrow>
     length buffer < 8
     \<or> buffer ! 0 \<noteq> 0x42 \<or> buffer ! 1 \<noteq> 0x45
     \<or> crc32 0 (drop 6 buffer) \<noteq> load_le32 buffer 2
     \<or> buffer ! 6 \<noteq> 0xff
     \<or> buffer ! 7 \<notin> {0, 1, 2}"
proof (cases "length buffer < 8")
  case True
  then show ?thesis by (simp add: decode_def)
next
  case False
  then have "take (size_sub (length buffer) 6) (drop 6 buffer) = drop 6 buffer"
    by (simp add: size_sub_def)
  with False show ?thesis
    by (auto simp add: decode_def Let_def bindE_def extractStr_def at_def
        PKT_LOGIN_def PKT_CMD_def PKT_SERVER_def split: if_splits)
qed

subsection \<open>Evaluating the codec on concrete packets\<close>

lemmas crc_eval = crc32_def crc_update_def crc_table_def crc_table_step_def

lemmas decode_eval = decode_def Let_def load_le32_def size_sub_def size_add_def PTRDIFF_MAX_def
  at_def bindE_def extractStr_def PKT_LOGIN_def PKT_CMD_def PKT_SERVER_def PKT_MULTI_def
  to_char_def char_of_def bit_0

lemmas encode_eval = encode.simps encodeHeader_def calculateCrc_def store_le32_def size_sub_def
  Let_def PKT_LOGIN_def PKT_CMD_def PKT_SERVER_def PKT_MULTI_def to_uint8_def
  list_update_Cons_numeral

text \<open>The check value of CRC-32: the checksum of the ASCII digits 1 to 9.\<close>

lemma crc32_check_value:
  "crc32 0 [0x31, 0x32, 0x33, 0x34, 0x35, 0x36, 0x37, 0x38, 0x39] = 0xCBF43926"
  by (simp add: crc_eval)

lemma crc_FF_00_secret:
  "crc32 0 [0xFF, 0x00, 0x73, 0x65, 0x63, 0x72, 0x65, 0x74] = 0xAE0990C9"
  by (simp add: crc_eval)

section \<open>Lemmas about the session\<close>

lemma sendPacket_ok:
  assumes "length (wire_format msg) \<le> BUF_SIZE" and "\<not> write_fails w (length (written w))"
  shows "sendPacket msg w = (Inr (), w\<lparr>written := written w @ [wire_format msg]\<rparr>)"
proof -
  from assms(1) have "length (wire_format msg) \<le> length (replicate BUF_SIZE (0x00 :: uint8_t))"
    by simp
  from encode_wire_format [OF this] obtain buf
    where "encode msg (replicate BUF_SIZE 0x00) = Inr (buf, length (wire_format msg))"
      and "take (length (wire_format msg)) buf = wire_format msg"
    by blast
  with assms(2) show ?thesis
    by (simp add: sendPacket_def)
qed

lemma sendPacket_write_fails:
  assumes "length (wire_format msg) \<le> BUF_SIZE" and "write_fails w (length (written w))"
  shows "sendPacket msg w = (Inl (ProtocolException PartialWrite), w)"
proof -
  from assms(1) have "length (wire_format msg) \<le> length (replicate BUF_SIZE (0x00 :: uint8_t))"
    by simp
  from encode_wire_format [OF this] obtain buf
    where "encode msg (replicate BUF_SIZE 0x00) = Inr (buf, length (wire_format msg))"
    by blast
  with assms(2) show ?thesis
    by (simp add: sendPacket_def)
qed

lemma log_written [simp]: "written (log cfg msg w) = written w"
  by (simp add: log_def)

lemma log_write_fails [simp]: "write_fails (log cfg msg w) = write_fails w"
  by (simp add: log_def)

text \<open>
  The two loops only add to what was written to the socket and to \<^verbatim>\<open>std::cout\<close>; a
  command that is not \<^verbatim>\<open>quit\<close> or \<^verbatim>\<open>exit\<close> is the next packet written.
\<close>

lemma sendPacket_cases:
  "sendPacket msg w = (Inl e', w') \<Longrightarrow> w' = w"
  "sendPacket msg w = (Inr u, w') \<Longrightarrow> \<exists>p. w' = w\<lparr>written := written w @ [p]\<rparr>"
  by (auto simp add: sendPacket_def split: sum.splits prod.splits if_splits)


lemma handle_responses_extends:
  assumes "handle_responses cfg evs w = (r, evs', w')"
  shows "\<exists>ps os. w' = w\<lparr>written := written w @ ps, cout := cout w @ os\<rparr>"
  using assms
proof (induction evs arbitrary: w)
  case Nil
  then have "w' = w\<lparr>written := written w @ [], cout := cout w @ []\<rparr>"
    by simp
  then show ?case by blast
next
  case (Cons ev evs)
  show ?case
  proof (cases "receivePacket ev")
    case (Inl e)
    with Cons.prems have "w' = w\<lparr>written := written w @ [], cout := cout w @ []\<rparr>"
      by simp
    then show ?thesis by blast
  next
    case (Inr rcvdMsg)
    have logged: "\<exists>os. log cfg t w = w\<lparr>written := written w @ [], cout := cout w @ os\<rparr>" for t
    proof (cases "quiet cfg")
      case True
      then have "log cfg t w = w\<lparr>written := written w @ [], cout := cout w @ []\<rparr>"
        by (simp add: log_def)
      then show ?thesis by blast
    next
      case False
      then have "log cfg t w = w\<lparr>written := written w @ [], cout := cout w @ [t]\<rparr>"
        by (simp add: log_def)
      then show ?thesis by blast
    qed
    show ?thesis
    proof (cases rcvdMsg)
      case (CommandResponse s t)
      with Inr Cons.prems have "w' = log cfg (t @ endl) w" by simp
      moreover from logged obtain os1
        where "log cfg (t @ endl) w = w\<lparr>written := written w @ [], cout := cout w @ os1\<rparr>"
        by blast
      ultimately have "w' = w\<lparr>written := written w @ [], cout := cout w @ os1\<rparr>"
        by simp
      then show ?thesis by blast
    next
      case (CommandPartialResponse n i t)
      with Inr Cons.prems have "handle_responses cfg evs (log cfg (t @ endl) w) = (r, evs', w')"
        by simp
      from Cons.IH [OF this] obtain ps os
        where "w' = (log cfg (t @ endl) w)\<lparr>written := written (log cfg (t @ endl) w) @ ps,
                 cout := cout (log cfg (t @ endl) w) @ os\<rparr>"
        by blast
      moreover from logged obtain os1
        where "log cfg (t @ endl) w = w\<lparr>written := written w @ [], cout := cout w @ os1\<rparr>"
        by blast
      ultimately have "w' = w\<lparr>written := written w @ ps, cout := cout w @ (os1 @ os)\<rparr>"
        by simp
      then show ?thesis by blast
    next
      case (ServerMessage s t)
      from logged obtain os1
        where l: "log cfg (t @ endl) w = w\<lparr>written := written w @ [], cout := cout w @ os1\<rparr>"
        by blast
      obtain r1 w1 where sp: "sendPacket (ServerAck s) (log cfg (t @ endl) w) = (r1, w1)"
        by (cases "sendPacket (ServerAck s) (log cfg (t @ endl) w)") 
      show ?thesis
      proof (cases r1)
        case (Inl e)
        with sp sendPacket_cases(1) have "w1 = log cfg (t @ endl) w" by blast
        moreover from Inl sp ServerMessage Inr Cons.prems have "w' = w1" by simp
        ultimately have "w' = w\<lparr>written := written w @ [], cout := cout w @ os1\<rparr>"
          using l by simp
        then show ?thesis by blast
      next
        case (Inr u)
        with sp sendPacket_cases(2) obtain p
          where w1: "w1 = (log cfg (t @ endl) w)\<lparr>written := written (log cfg (t @ endl) w) @ [p]\<rparr>"
          by blast
        from Inr sp ServerMessage \<open>receivePacket ev = Inr rcvdMsg\<close> Cons.prems
        have "handle_responses cfg evs w1 = (r, evs', w')" by simp
        from Cons.IH [OF this] obtain ps os
          where "w' = w1\<lparr>written := written w1 @ ps, cout := cout w1 @ os\<rparr>"
          by blast
        with w1 l have "w' = w\<lparr>written := written w @ ([p] @ ps), cout := cout w @ (os1 @ os)\<rparr>"
          by simp
        then show ?thesis by blast
      qed
    next
      case (Login x)
      with Inr Cons.prems have "w' = w\<lparr>written := written w @ [], cout := cout w @ []\<rparr>"
        by simp
      then show ?thesis by blast
    next
      case (LoginResponse x)
      with Inr Cons.prems have "w' = w\<lparr>written := written w @ [], cout := cout w @ []\<rparr>"
        by simp
      then show ?thesis by blast
    next
      case (Command x y)
      with Inr Cons.prems have "w' = w\<lparr>written := written w @ [], cout := cout w @ []\<rparr>"
        by simp
      then show ?thesis by blast
    next
      case (ServerAck x)
      with Inr Cons.prems have "w' = w\<lparr>written := written w @ [], cout := cout w @ []\<rparr>"
        by simp
      then show ?thesis by blast
    qed
  qed
qed


lemma execute_commands_extends:
  assumes "execute_commands cfg evs w = (r, evs', w')"
  shows "\<exists>ps. written w' = written w @ ps \<and> write_fails w' = write_fails w"
  using assms
proof (induction cfg evs w arbitrary: r evs' w' rule: execute_commands.induct)
  case (1 cfg evs w)
  obtain cmdStr w1
    where rw: "(if interactive cfg then read_word (w\<lparr>cout := cout w @ [''> '']\<rparr>)
               else (command cfg, w)) = (cmdStr, w1)"
    by (cases "if interactive cfg then read_word (w\<lparr>cout := cout w @ [''> '']\<rparr>)
               else (command cfg, w)")
  then have w1: "written w1 = written w" "write_fails w1 = write_fails w"
    by (auto simp add: read_word_def split: if_splits list.splits)
  show ?case
  proof (cases "cmdStr = ''quit'' \<or> cmdStr = ''exit''")
    case True
    with "1.prems" rw have "w' = w1"
      by (subst (asm) execute_commands.simps) auto
    with w1 show ?thesis by simp
  next
    case False
    obtain cmd counter where cn: "Command_new cmdStr (mNextSeqNum w1) = (cmd, counter)"
      by (cases "Command_new cmdStr (mNextSeqNum w1)")
    obtain r3 w3 where sp: "sendPacket cmd (w1\<lparr>mNextSeqNum := counter\<rparr>) = (r3, w3)"
      by (cases "sendPacket cmd (w1\<lparr>mNextSeqNum := counter\<rparr>)")
    show ?thesis
    proof (cases r3)
      case (Inl e)
      with sp sendPacket_cases(1) have "w3 = w1\<lparr>mNextSeqNum := counter\<rparr>" by blast
      moreover from "1.prems" rw False cn sp Inl have "w' = w3"
        by (subst (asm) execute_commands.simps) auto
      ultimately show ?thesis using w1 by simp
    next
      case (Inr u)
      with sp sendPacket_cases(2) obtain p
        where w3: "w3 = (w1\<lparr>mNextSeqNum := counter\<rparr>)\<lparr>written := written w1 @ [p]\<rparr>"
        by fastforce
      obtain r4 evs4 w4 where hr: "handle_responses cfg evs w3 = (r4, evs4, w4)"
        by (cases "handle_responses cfg evs w3")
      from handle_responses_extends [OF hr] obtain ps os
        where w4: "w4 = w3\<lparr>written := written w3 @ ps, cout := cout w3 @ os\<rparr>"
        by blast
      from w4 w3 w1 have w4w: "written w4 = written w @ ([p] @ ps)" "write_fails w4 = write_fails w"
        by simp_all
      show ?thesis
      proof (cases "\<exists>u'. r4 = Inr u' \<and> interactive cfg")
        case False
        with "1.prems" rw \<open>\<not> (cmdStr = ''quit'' \<or> cmdStr = ''exit'')\<close> cn sp Inr hr
        have "w' = w4"
          by (subst (asm) execute_commands.simps) (auto split: sum.splits)
        with w4w show ?thesis by blast
      next
        case True
        then obtain u' where r4: "r4 = Inr u'" and inter: "interactive cfg" by blast
        with "1.prems" rw \<open>\<not> (cmdStr = ''quit'' \<or> cmdStr = ''exit'')\<close> cn sp Inr hr
        have rec: "execute_commands cfg evs4 w4 = (r, evs', w')"
          by (subst (asm) execute_commands.simps) auto
        from "1.IH" [OF refl rw [symmetric] \<open>\<not> (cmdStr = ''quit'' \<or> cmdStr = ''exit'')\<close>
            refl cn [symmetric] refl sp [symmetric] Inr hr [symmetric] r4 refl inter rec]
        obtain qs where "written w' = written w4 @ qs" "write_fails w' = write_fails w4"
          by auto
        with w4w have "written w' = written w @ ([p] @ ps @ qs)" "write_fails w' = write_fails w"
          by simp_all
        then show ?thesis by blast
      qed
    qed
  qed
qed

lemma execute_commands_quit:
  assumes "cmdStr = (if interactive cfg then (case cin w of [] \<Rightarrow> [] | x # xs \<Rightarrow> x) else command cfg)"
    and "cmdStr = ''quit'' \<or> cmdStr = ''exit''"
  shows "\<exists>w'. execute_commands cfg evs w = (Inr (), evs, w') \<and> written w' = written w"
proof (cases "interactive cfg")
  case True
  with assms show ?thesis
    by (subst execute_commands.simps) (auto simp add: read_word_def split: list.splits)
next
  case False
  with assms show ?thesis
    by (subst execute_commands.simps) auto
qed

lemma execute_commands_sends:
  assumes "cmdStr = (if interactive cfg then (case cin w of [] \<Rightarrow> [] | x # xs \<Rightarrow> x) else command cfg)"
    and "cmdStr \<noteq> ''quit''" and "cmdStr \<noteq> ''exit''"
    and "9 + length cmdStr \<le> BUF_SIZE"
    and "\<not> write_fails w (length (written w))"
  shows "\<exists>ps. written (snd (snd (execute_commands cfg evs w)))
           = written w @ [wire_format (Command (mNextSeqNum w) cmdStr)] @ ps"
proof -
  define w1 where "w1 = (if interactive cfg then snd (read_word (w\<lparr>cout := cout w @ [''> '']\<rparr>)) else w)"
  have rw: "(if interactive cfg then read_word (w\<lparr>cout := cout w @ [''> '']\<rparr>)
             else (command cfg, w)) = (cmdStr, w1)"
    using assms(1) by (auto simp add: w1_def read_word_def split: list.splits)
  have w1: "written w1 = written w" "write_fails w1 = write_fails w" "mNextSeqNum w1 = mNextSeqNum w"
    by (auto simp add: w1_def read_word_def split: list.splits)
  define w2 where "w2 = w1\<lparr>mNextSeqNum := mNextSeqNum w + 1\<rparr>"
  define w3 where "w3 = w2\<lparr>written := written w @ [wire_format (Command (mNextSeqNum w) cmdStr)]\<rparr>"
  have cn: "Command_new cmdStr (mNextSeqNum w1) = (Command (mNextSeqNum w) cmdStr, mNextSeqNum w + 1)"
    by (simp add: Command_new_def getNextSeqNum_def w1)
  have "length (wire_format (Command (mNextSeqNum w) cmdStr)) \<le> BUF_SIZE"
    using assms(4) by (simp add: length_frame)
  moreover have "\<not> write_fails w2 (length (written w2))"
    using assms(5) by (simp add: w2_def w1)
  ultimately have sp: "sendPacket (Command (mNextSeqNum w) cmdStr) w2 = (Inr (), w3)"
    using sendPacket_ok [of "Command (mNextSeqNum w) cmdStr" w2] by (simp add: w3_def w2_def w1)
  obtain r4 evs4 w4 where hr: "handle_responses cfg evs w3 = (r4, evs4, w4)"
    by (cases "handle_responses cfg evs w3")
  from handle_responses_extends [OF hr] obtain ps os
    where "w4 = w3\<lparr>written := written w3 @ ps, cout := cout w3 @ os\<rparr>"
    by blast
  then have w4: "written w4 = written w @ [wire_format (Command (mNextSeqNum w) cmdStr)] @ ps"
    by (simp add: w3_def)
  show ?thesis
  proof (cases "\<exists>u'. r4 = Inr u' \<and> interactive cfg")
    case False
    with rw assms(2,3) cn sp hr
    have "snd (snd (execute_commands cfg evs w)) = w4"
      unfolding w2_def
      by (subst execute_commands.simps) (auto split: sum.splits)
    with w4 show ?thesis by auto
  next
    case True
    with rw assms(2,3) cn sp hr
    have "execute_commands cfg evs w = execute_commands cfg evs4 w4"
      unfolding w2_def
      by (subst execute_commands.simps) auto
    moreover obtain r evs' w' where rec: "execute_commands cfg evs4 w4 = (r, evs', w')"
      by (cases "execute_commands cfg evs4 w4")
    moreover from execute_commands_extends [OF rec] obtain qs
      where "written w' = written w4 @ qs"
      by blast
    ultimately have "written (snd (snd (execute_commands cfg evs w)))
        = written w @ [wire_format (Command (mNextSeqNum w) cmdStr)] @ (ps @ qs)"
      using w4 by simp
    then show ?thesis by blast
  qed
qed

text \<open>Packets used as concrete inputs below, with the checksums zlib computes for them.\<close>

lemma wire_format_Login_pw:
  "wire_format (Login ''pw'') = [0x42, 0x45, 0x84, 0x44, 0x1F, 0x1E, 0xFF, 0x00, 0x70, 0x77]"
  by (simp add: frame_def le32_bytes_def to_uint8_def crc_eval)

lemma wire_format_ServerAck_7:
  "wire_format (ServerAck 7) = [0x42, 0x45, 0xDE, 0x1A, 0x8B, 0xED, 0xFF, 0x02, 0x07]"
  by (simp add: frame_def le32_bytes_def crc_eval)

lemma receive_LoginResponse_0:
  "receivePacket (Datagram [0x42, 0x45, 0xFF, 0xED, 0xD9, 0x41, 0xFF, 0x00, 0x00])
     = Inr (LoginResponse 0)"
  by (simp add: receivePacket_def BUF_SIZE_def decode_eval crc_eval)

lemma receive_LoginResponse_1:
  "receivePacket (Datagram [0x42, 0x45, 0x69, 0xDD, 0xDE, 0x36, 0xFF, 0x00, 0x01])
     = Inr (LoginResponse 1)"
  by (simp add: receivePacket_def BUF_SIZE_def decode_eval crc_eval)

lemma receive_ServerMessage_7_hi:
  "receivePacket (Datagram [0x42, 0x45, 0xCC, 0xD6, 0x4A, 0x3A, 0xFF, 0x02, 0x07, 0x68, 0x69])
     = Inr (ServerMessage 7 ''hi'')"
  by (simp add: receivePacket_def BUF_SIZE_def decode_eval crc_eval)

lemma sent_Login_pw:
  "sendPacket (Login ''pw'')
     \<lparr>written = [], write_fails = (\<lambda>k. False), cout = [], cin = [], mNextSeqNum = 0\<rparr>
   = (Inr (), \<lparr>written = [[0x42, 0x45, 0x84, 0x44, 0x1F, 0x1E, 0xFF, 0x00, 0x70, 0x77]],
               write_fails = (\<lambda>k. False), cout = [], cin = [], mNextSeqNum = 0\<rparr>)"
proof -
  let ?w = "\<lparr>written = [], write_fails = (\<lambda>k. False), cout = [], cin = [], mNextSeqNum = 0\<rparr>"
  have "length (wire_format (Login ''pw'')) \<le> BUF_SIZE"
    by (simp add: length_frame BUF_SIZE_def)
  moreover have "\<not> write_fails ?w (length (written ?w))"
    by simp
  ultimately have "sendPacket (Login ''pw'') ?w
      = (Inr (), ?w\<lparr>written := written ?w @ [wire_format (Login ''pw'')]\<rparr>)"
    by (rule sendPacket_ok)
  then show ?thesis
    unfolding wire_format_Login_pw by simp
qed

lemma receive_CommandResponse_0_ok:
  "receivePacket (Datagram [0x42, 0x45, 0x4C, 0x98, 0xFF, 0x8C, 0xFF, 0x01, 0x00, 0x6F, 0x6B])
     = Inr (CommandResponse 0 ''ok'')"
  by (simp add: receivePacket_def BUF_SIZE_def decode_eval crc_eval)

lemma wire_format_Command_0_players:
  "wire_format (Command 0 ''players'')
     = [0x42, 0x45, 0xF9, 0x37, 0x94, 0xAE, 0xFF, 0x01, 0x00,
        0x70, 0x6C, 0x61, 0x79, 0x65, 0x72, 0x73]"
  by (simp add: frame_def le32_bytes_def to_uint8_def crc_eval)

lemma commands_players:
  "execute_commands
     \<lparr>interactive = False, quiet = False, password = ''pw'', command = ''players''\<rparr>
     [Datagram [0x42, 0x45, 0x4C, 0x98, 0xFF, 0x8C, 0xFF, 0x01, 0x00, 0x6F, 0x6B]]
     \<lparr>written = [[0x42, 0x45, 0x84, 0x44, 0x1F, 0x1E, 0xFF, 0x00, 0x70, 0x77]],
      write_fails = (\<lambda>k. False), cout = [], cin = [], mNextSeqNum = 0\<rparr>
   = (Inr (), [],
      \<lparr>written = [[0x42, 0x45, 0x84, 0x44, 0x1F, 0x1E, 0xFF, 0x00, 0x70, 0x77],
                  [0x42, 0x45, 0xF9, 0x37, 0x94, 0xAE, 0xFF, 0x01, 0x00,
                   0x70, 0x6C, 0x61, 0x79, 0x65, 0x72, 0x73]],
       write_fails = (\<lambda>k. False), cout = [''ok'' @ endl], cin = [], mNextSeqNum = 1\<rparr>)"
proof -
  let ?w2 = "\<lparr>written = [[0x42, 0x45, 0x84, 0x44, 0x1F, 0x1E, 0xFF, 0x00, 0x70, 0x77]],
      write_fails = (\<lambda>k. False), cout = [], cin = [], mNextSeqNum = 1 :: uint8_t\<rparr>"
  have "length (wire_format (Command 0 ''players'')) \<le> BUF_SIZE"
    by (simp add: length_frame BUF_SIZE_def)
  moreover have "\<not> write_fails ?w2 (length (written ?w2))"
    by simp
  ultimately have "sendPacket (Command 0 ''players'') ?w2
      = (Inr (), ?w2\<lparr>written := written ?w2 @ [wire_format (Command 0 ''players'')]\<rparr>)"
    by (rule sendPacket_ok)
  then have sent: "sendPacket (Command 0 ''players'') ?w2
      = (Inr (), \<lparr>written = [[0x42, 0x45, 0x84, 0x44, 0x1F, 0x1E, 0xFF, 0x00, 0x70, 0x77],
                  [0x42, 0x45, 0xF9, 0x37, 0x94, 0xAE, 0xFF, 0x01, 0x00,
                   0x70, 0x6C, 0x61, 0x79, 0x65, 0x72, 0x73]],
       write_fails = (\<lambda>k. False), cout = [], cin = [], mNextSeqNum = 1\<rparr>)"
    unfolding wire_format_Command_0_players by simp
  show ?thesis
    by (subst execute_commands.simps)
      (simp add: Command_new_def getNextSeqNum_def sent receive_CommandResponse_0_ok log_def)
qed

section \<open>The claims\<close>

subsection \<open>C1: decoding what was encoded\<close>

text \<open>
  C1 says that decoding the encoding of any of the seven variants gives the variant back,
  kind and fields. \<open>decode\<close> builds server-to-client messages only, and type byte 0 is
  shared: the packet of \<open>Login ''ab''\<close> decodes to a \<open>CommandPartialResponse\<close> whose two
  counters are the two characters of the password.
\<close>

theorem Login_roundtrip_counterexample:
  "encode (Login ''ab'') [0, 0, 0, 0, 0, 0, 0, 0, 0, 0]
     = Inr ([0x42, 0x45, 0x7F, 0x83, 0x1B, 0x20, 0xFF, 0x00, 0x61, 0x62], 10)
   \<and> decode [0x42, 0x45, 0x7F, 0x83, 0x1B, 0x20, 0xFF, 0x00, 0x61, 0x62]
     = Inr (CommandPartialResponse 0x61 0x62 [])
   \<and> getType (CommandPartialResponse 0x61 0x62 []) \<noteq> getType (Login ''ab'')"
  by (simp add: encode_eval decode_eval crc_eval)

text \<open>
  C1 as amended. For a message that is not a \<open>Login\<close> and whose string holds no \<open>0x00\<close>
  character, encoded into a buffer of at most \<open>PTRDIFF_MAX\<close> bytes that holds the packet:
  decoding the bytes written gives back a \<open>LoginResponse\<close>, \<open>CommandResponse\<close>,
  \<open>CommandPartialResponse\<close> or \<open>ServerMessage\<close> exactly; a \<open>Command\<close> comes back with
  its fields as a \<open>CommandResponse\<close>, a \<open>ServerAck\<close> as a \<open>ServerMessage\<close> with its
  sequence number and the empty text.
\<close>

theorem decode_encode_server_variants:
  assumes "encode m buffer = Inr (buffer', len)"
    and "length buffer \<le> PTRDIFF_MAX"
    and "getType m \<noteq> MSG_LOGIN"
    and "CHR 0x00 \<notin> set (message_text m)"
  shows "decode (take len buffer') =
           Inr (case m of
                  Command mSeqNum mCmdStr \<Rightarrow> CommandResponse mSeqNum mCmdStr
                | ServerAck mSeqNum \<Rightarrow> ServerMessage mSeqNum []
                | _ \<Rightarrow> m)"
proof -
  from encode_Inr_wire_format [OF assms(1)]
  have len: "len = length (wire_format m)" and fits: "len \<le> length buffer"
    and bytes: "take len buffer' = wire_format m"
    by blast+
  from len fits assms(2) have bound: "length (wire_format m) \<le> PTRDIFF_MAX"
    by simp
  show ?thesis
  proof (cases m)
    case (Login pw)
    with assms(3) show ?thesis by simp
  next
    case (LoginResponse r)
    then show ?thesis
      by (simp add: bytes decode_frame_LoginResponse)
  next
    case (Command s t)
    with bound assms(4) show ?thesis
      by (simp add: bytes length_frame decode_frame_cmd text_roundtrip)
  next
    case (CommandResponse s t)
    with bound assms(4) show ?thesis
      by (simp add: bytes length_frame decode_frame_cmd text_roundtrip)
  next
    case (CommandPartialResponse n i t)
    with bound assms(4) show ?thesis
      by (simp add: bytes length_frame decode_frame_multi text_roundtrip)
  next
    case (ServerMessage s t)
    with bound assms(4) show ?thesis
      by (simp add: bytes length_frame decode_frame_server text_roundtrip)
  next
    case (ServerAck s)
    with bound show ?thesis
      using decode_frame_server [of "[]" s]
      by (simp add: bytes length_frame PTRDIFF_MAX_def)
  qed
qed

text \<open>The theorem at \<open>CommandResponse 0 ''ok''\<close> and a buffer of eleven zero bytes.\<close>

theorem decode_encode_server_variants_witness:
  "encode (CommandResponse 0 ''ok'') [0, 0, 0, 0, 0, 0, 0, 0, 0, 0, 0]
     = Inr ([0x42, 0x45, 0x4C, 0x98, 0xFF, 0x8C, 0xFF, 0x01, 0x00, 0x6F, 0x6B], 11)
   \<and> length [0 :: uint8_t, 0, 0, 0, 0, 0, 0, 0, 0, 0, 0] \<le> PTRDIFF_MAX
   \<and> getType (CommandResponse 0 ''ok'') \<noteq> MSG_LOGIN
   \<and> CHR 0x00 \<notin> set (message_text (CommandResponse 0 ''ok''))
   \<and> decode (take 11 [0x42, 0x45, 0x4C, 0x98, 0xFF, 0x8C, 0xFF, 0x01, 0x00, 0x6F, 0x6B])
     = Inr (CommandResponse 0 ''ok'')"
proof -
  have encoded: "encode (CommandResponse 0 ''ok'') [0, 0, 0, 0, 0, 0, 0, 0, 0, 0, 0]
      = Inr ([0x42, 0x45, 0x4C, 0x98, 0xFF, 0x8C, 0xFF, 0x01, 0x00, 0x6F, 0x6B], 11)"
    by (simp add: encode_eval crc_eval)
  have small: "length [0 :: uint8_t, 0, 0, 0, 0, 0, 0, 0, 0, 0, 0] \<le> PTRDIFF_MAX"
    by (simp add: PTRDIFF_MAX_def)
  have kind: "getType (CommandResponse 0 ''ok'') \<noteq> MSG_LOGIN"
    by simp
  have no_zero: "CHR 0x00 \<notin> set (message_text (CommandResponse 0 ''ok''))"
    by simp
  from decode_encode_server_variants [OF encoded small kind no_zero]
  have "decode (take 11 [0x42, 0x45, 0x4C, 0x98, 0xFF, 0x8C, 0xFF, 0x01, 0x00, 0x6F, 0x6B])
      = Inr (CommandResponse 0 ''ok'')"
    by (simp only: message.case)
  with encoded small kind no_zero show ?thesis
    by blast
qed

subsection \<open>C2: the dispatch of \<open>decode\<close>\<close>

text \<open>
  C2 (the code departs from it). A packet that passes the framing checks, of type 2 and
  with the payload \<open>09 48 00 69\<close>: C2 gives the \<open>ServerMessage\<close> with sequence number 9
  the text of the bytes from offset 9 on, \<open>48 00 69\<close>. \<open>extractStr\<close> copies these three
  bytes and then builds the string with the constructor for C strings, so the text
  returned is the one character before the \<open>0x00\<close>. Which variant is built, and from
  which header bytes, is as C2 says for every packet that has the payload bytes of its
  variant (lemma \<open>decode_dispatch\<close>).
\<close>

theorem decode_dispatch_text_cut:
  "decode [0x42, 0x45, 0x01, 0x13, 0x29, 0x18, 0xFF, 0x02, 0x09, 0x48, 0x00, 0x69]
     = Inr (ServerMessage 9 ''H'')
   \<and> map to_char (drop 9 [0x42, 0x45, 0x01, 0x13, 0x29, 0x18, 0xFF, 0x02, 0x09, 0x48, 0x00, 0x69])
     = [CHR ''H'', CHR 0x00, CHR ''i'']"
  by (simp add: decode_eval crc_eval)

subsection \<open>C3: when \<open>decode\<close> fails\<close>

text \<open>
  C3 (the code departs from it). The packet of eight bytes below has the magic bytes, the
  checksum of its bytes 6 and 7, the marker and the type byte 0, so none of the five
  conditions of C3 holds and C3 has \<open>decode\<close> return a message. The type 0 branch takes
  the packet for a partial response since its length is not 9, and \<^verbatim>\<open>length - 10\<close> wraps
  to \<open>2^64 - 2\<close>: the allocation in \<open>extractStr\<close> throws \<^verbatim>\<open>std::bad_alloc\<close>, which is not a
  \<^verbatim>\<open>ProtocolException\<close>, and no message is returned. That a \<^verbatim>\<open>ProtocolException\<close> is
  thrown exactly under the five conditions holds (lemma \<open>decode_ProtocolException_iff\<close>).
\<close>

theorem decode_header_only_bad_alloc:
  "decode [0x42, 0x45, 0x8D, 0xEF, 0xFD, 0xD2, 0xFF, 0x00] = Inl BadAlloc
   \<and> \<not> is_ProtocolException BadAlloc
   \<and> \<not> length [0x42 :: uint8_t, 0x45, 0x8D, 0xEF, 0xFD, 0xD2, 0xFF, 0x00] < 8
   \<and> crc32 0 (drop 6 [0x42, 0x45, 0x8D, 0xEF, 0xFD, 0xD2, 0xFF, 0x00])
     = load_le32 [0x42, 0x45, 0x8D, 0xEF, 0xFD, 0xD2, 0xFF, 0x00] 2
   \<and> size_sub 8 10 = 2 ^ 64 - 2"
  by (simp add: decode_eval crc_eval)

subsection \<open>C4: the indices \<open>decode\<close> reads\<close>

text \<open>
  C4 (the code departs from it). The packet of eight bytes below passes the framing
  checks with type byte 1. \<open>decode\<close> then calls \<^verbatim>\<open>extractStr(buffer + 9, length - 9)\<close>,
  where the length wraps to \<open>2^64 - 1\<close>, and reads \<^verbatim>\<open>buffer[8]\<close>: both are outside the
  eight bytes supplied. The header-only packets of type 1 and 2 are the only inputs on
  which this happens (lemma \<open>decode_OutOfBounds_iff\<close>).
\<close>

theorem decode_header_only_out_of_bounds:
  "decode [0x42, 0x45, 0x1B, 0xDF, 0xFA, 0xA5, 0xFF, 0x01] = Inl OutOfBounds
   \<and> size_sub 8 9 = 2 ^ 64 - 1
   \<and> extractStr [0x42, 0x45, 0x1B, 0xDF, 0xFA, 0xA5, 0xFF, 0x01] 9 (size_sub 8 9) = Inl OutOfBounds
   \<and> at [0x42, 0x45, 0x1B, 0xDF, 0xFA, 0xA5, 0xFF, 0x01] 8 = Inl OutOfBounds"
  by (simp add: decode_eval crc_eval)

subsection \<open>C5: the text of a decoded packet\<close>

text \<open>
  C5 (the code departs from it). The packet below is a command response with sequence
  number 5 whose text bytes are \<open>41 00 42\<close>; it is what \<open>encode\<close> writes for the
  response with that three character text. C5 has the decoded text be all three bytes;
  the text \<open>decode\<close> returns stops before the \<open>0x00\<close>.
\<close>

theorem decode_text_stops_at_zero:
  "decode [0x42, 0x45, 0xA6, 0x14, 0x32, 0xB6, 0xFF, 0x01, 0x05, 0x41, 0x00, 0x42]
     = Inr (CommandResponse 5 ''A'')
   \<and> map to_char (drop 9 [0x42, 0x45, 0xA6, 0x14, 0x32, 0xB6, 0xFF, 0x01, 0x05, 0x41, 0x00, 0x42])
     = [CHR ''A'', CHR 0x00, CHR ''B'']
   \<and> encode (CommandResponse 5 [CHR ''A'', CHR 0x00, CHR ''B''])
       [0, 0, 0, 0, 0, 0, 0, 0, 0, 0, 0, 0]
     = Inr ([0x42, 0x45, 0xA6, 0x14, 0x32, 0xB6, 0xFF, 0x01, 0x05, 0x41, 0x00, 0x42], 12)"
  by (simp add: decode_eval crc_eval encode_eval)

subsection \<open>C6: the login\<close>

text \<open>
  C6 says that a \<open>LoginResponse\<close> with result 0 makes the session fail with an
  authentication error of its own kind. The sources have three exception classes,
  \<^verbatim>\<open>ProtocolException\<close>, \<^verbatim>\<open>SocketException\<close> and \<^verbatim>\<open>AppException\<close>; the rejected login throws
  \<^verbatim>\<open>ProtocolException("Wrong RCON password!")\<close>, the class that also reports an unexpected
  message. The run below sends the login for the password \<open>pw\<close>, receives the
  \<open>LoginResponse\<close> with result 0 and ends with that exception, the login packet being the
  only one written.
\<close>

theorem login_rejected_counterexample:
  "run \<lparr>interactive = False, quiet = False, password = ''pw'', command = ''players''\<rparr>
       [Datagram [0x42, 0x45, 0xFF, 0xED, 0xD9, 0x41, 0xFF, 0x00, 0x00]]
       \<lparr>written = [], write_fails = (\<lambda>k. False), cout = [], cin = [], mNextSeqNum = 0\<rparr>
   = (Inl (ProtocolException WrongPassword), [],
      \<lparr>written = [[0x42, 0x45, 0x84, 0x44, 0x1F, 0x1E, 0xFF, 0x00, 0x70, 0x77]],
       write_fails = (\<lambda>k. False), cout = [], cin = [], mNextSeqNum = 0\<rparr>)
   \<and> is_ProtocolException (ProtocolException WrongPassword)"
  by (simp add: run_def sent_Login_pw receive_LoginResponse_0)

text \<open>
  C6 as amended. Let the login packet fit the buffer and be written, \<open>w1\<close> being the world
  right after, and let \<open>cmdStr\<close> be the command the session meets first: the next word of
  \<^verbatim>\<open>std::cin\<close> in interactive mode, the command argument otherwise.
  \<^item> If the reply decodes to a \<open>LoginResponse\<close> with result 0, the session fails with
    \<^verbatim>\<open>ProtocolException("Wrong RCON password!")\<close> in the world \<open>w1\<close>: nothing more was sent.
  \<^item> If the result is 1, or any other value than 0, the session goes on as the command
    loop (after the hint, in interactive mode) and accepts the command: for \<^verbatim>\<open>quit\<close> or
    \<^verbatim>\<open>exit\<close> it ends without failure and without another packet; for any other
    command that fits the buffer and that the transport takes, the packets written are
    the login, then the \<open>Command\<close> with the counter's sequence number and that text, then
    whatever the rest of the session sends.
  \<^item> If the reply decodes to a message of any other type, the session fails with
    \<^verbatim>\<open>ProtocolException("Unexpected message received!")\<close>, again in \<open>w1\<close>.

  The comment on \<^verbatim>\<open>LoginResponse\<close> in the header reads "0 if login succeeded, 1 if
  failed"; \<^verbatim>\<open>run\<close> does the reverse, as C6 says, and the model follows \<^verbatim>\<open>run\<close>.
\<close>

theorem login_flow:
  assumes "8 + length (password cfg) \<le> BUF_SIZE"
    and "\<not> write_fails w (length (written w))"
    and "w1 = w\<lparr>written := written w @ [wire_format (Login (password cfg))]\<rparr>"
    and "cmdStr = (if interactive cfg then (case cin w of [] \<Rightarrow> [] | x # xs \<Rightarrow> x)
                   else command cfg)"
  shows "(receivePacket ev = Inr (LoginResponse 0) \<longrightarrow>
            run cfg (ev # evs) w = (Inl (ProtocolException WrongPassword), evs, w1))
       \<and> (receivePacket ev = Inr (LoginResponse result) \<and> result \<noteq> 0 \<longrightarrow>
            run cfg (ev # evs) w =
              execute_commands cfg evs
                (if interactive cfg then w1\<lparr>cout := cout w1 @ [interactive_hint]\<rparr> else w1)
            \<and> (cmdStr = ''quit'' \<or> cmdStr = ''exit'' \<longrightarrow>
                  fst (run cfg (ev # evs) w) = Inr ()
                  \<and> fst (snd (run cfg (ev # evs) w)) = evs
                  \<and> written (snd (snd (run cfg (ev # evs) w))) = written w1)
            \<and> (cmdStr \<noteq> ''quit'' \<and> cmdStr \<noteq> ''exit'' \<and> 9 + length cmdStr \<le> BUF_SIZE
                 \<and> \<not> write_fails w (Suc (length (written w))) \<longrightarrow>
                  (\<exists>ps. written (snd (snd (run cfg (ev # evs) w))) =
                     written w
                       @ [wire_format (Login (password cfg)),
                          wire_format (Command (mNextSeqNum w) cmdStr)]
                       @ ps)))
       \<and> (receivePacket ev = Inr m \<and> getType m \<noteq> MSG_LOGIN_RESP \<longrightarrow>
            run cfg (ev # evs) w = (Inl (ProtocolException UnexpectedMessage), evs, w1))"
proof -
  have "length (wire_format (Login (password cfg))) \<le> BUF_SIZE"
    using assms(1) by (simp add: length_frame)
  from sendPacket_ok [OF this assms(2)] assms(3)
  have sent: "sendPacket (Login (password cfg)) w = (Inr (), w1)"
    by simp
  define w2 where "w2 = (if interactive cfg then w1\<lparr>cout := cout w1 @ [interactive_hint]\<rparr> else w1)"
  have w2: "written w2 = written w @ [wire_format (Login (password cfg))]"
    "write_fails w2 = write_fails w" "cin w2 = cin w" "mNextSeqNum w2 = mNextSeqNum w"
    by (simp_all add: w2_def assms(3))
  have cmd: "cmdStr = (if interactive cfg then (case cin w2 of [] \<Rightarrow> [] | x # xs \<Rightarrow> x)
                       else command cfg)"
    using assms(4) by (simp add: w2)
  have rejected: "receivePacket ev = Inr (LoginResponse 0) \<Longrightarrow>
      run cfg (ev # evs) w = (Inl (ProtocolException WrongPassword), evs, w1)"
    by (simp add: run_def sent)
  have unexpected: "receivePacket ev = Inr m \<Longrightarrow> getType m \<noteq> MSG_LOGIN_RESP \<Longrightarrow>
      run cfg (ev # evs) w = (Inl (ProtocolException UnexpectedMessage), evs, w1)"
    by (cases m) (simp_all add: run_def sent)
  have accepted: "run cfg (ev # evs) w = execute_commands cfg evs w2"
    if "receivePacket ev = Inr (LoginResponse result)" "result \<noteq> 0"
    using that by (simp add: run_def sent w2_def)
  have quits: "fst (execute_commands cfg evs w2) = Inr ()
      \<and> fst (snd (execute_commands cfg evs w2)) = evs
      \<and> written (snd (snd (execute_commands cfg evs w2))) = written w1"
    if "cmdStr = ''quit'' \<or> cmdStr = ''exit''"
    using execute_commands_quit [OF cmd that, of evs] by (auto simp add: w2 assms(3))
  have sends: "\<exists>ps. written (snd (snd (execute_commands cfg evs w2))) =
         written w @ [wire_format (Login (password cfg)),
                      wire_format (Command (mNextSeqNum w) cmdStr)] @ ps"
    if "cmdStr \<noteq> ''quit''" "cmdStr \<noteq> ''exit''" "9 + length cmdStr \<le> BUF_SIZE"
      "\<not> write_fails w (Suc (length (written w)))"
  proof -
    from that(4) have "\<not> write_fails w2 (length (written w2))"
      by (simp add: w2)
    from execute_commands_sends [OF cmd that(1-3) this, of evs] show ?thesis
      by (simp add: w2)
  qed
  have c1: "receivePacket ev = Inr (LoginResponse 0) \<longrightarrow>
      run cfg (ev # evs) w = (Inl (ProtocolException WrongPassword), evs, w1)"
    using rejected by blast
  have c3: "receivePacket ev = Inr m \<and> getType m \<noteq> MSG_LOGIN_RESP \<longrightarrow>
      run cfg (ev # evs) w = (Inl (ProtocolException UnexpectedMessage), evs, w1)"
    using unexpected by blast
  have c2: "receivePacket ev = Inr (LoginResponse result) \<and> result \<noteq> 0 \<longrightarrow>
      run cfg (ev # evs) w = execute_commands cfg evs w2
      \<and> (cmdStr = ''quit'' \<or> cmdStr = ''exit'' \<longrightarrow>
            fst (run cfg (ev # evs) w) = Inr ()
            \<and> fst (snd (run cfg (ev # evs) w)) = evs
            \<and> written (snd (snd (run cfg (ev # evs) w))) = written w1)
      \<and> (cmdStr \<noteq> ''quit'' \<and> cmdStr \<noteq> ''exit'' \<and> 9 + length cmdStr \<le> BUF_SIZE
           \<and> \<not> write_fails w (Suc (length (written w))) \<longrightarrow>
            (\<exists>ps. written (snd (snd (run cfg (ev # evs) w))) =
               written w
                 @ [wire_format (Login (password cfg)),
                    wire_format (Command (mNextSeqNum w) cmdStr)]
                 @ ps))"
  proof
    assume "receivePacket ev = Inr (LoginResponse result) \<and> result \<noteq> 0"
    then have eq: "run cfg (ev # evs) w = execute_commands cfg evs w2"
      using accepted by blast
    from quits sends show "run cfg (ev # evs) w = execute_commands cfg evs w2
      \<and> (cmdStr = ''quit'' \<or> cmdStr = ''exit'' \<longrightarrow>
            fst (run cfg (ev # evs) w) = Inr ()
            \<and> fst (snd (run cfg (ev # evs) w)) = evs
            \<and> written (snd (snd (run cfg (ev # evs) w))) = written w1)
      \<and> (cmdStr \<noteq> ''quit'' \<and> cmdStr \<noteq> ''exit'' \<and> 9 + length cmdStr \<le> BUF_SIZE
           \<and> \<not> write_fails w (Suc (length (written w))) \<longrightarrow>
            (\<exists>ps. written (snd (snd (run cfg (ev # evs) w))) =
               written w
                 @ [wire_format (Login (password cfg)),
                    wire_format (Command (mNextSeqNum w) cmdStr)]
                 @ ps))"
      unfolding eq by blast
  qed
  from c1 c2 c3 show ?thesis
    unfolding w2_def by (intro conjI)
qed

text \<open>
  The theorem at the password \<open>pw\<close> in batch mode, with four runs: the reply with result
  0; the reply with result 1 and the command \<open>players\<close>, answered by a \<open>CommandResponse\<close>
  with the text \<open>ok\<close>; the reply with result 1 and the command \<open>quit\<close>; and a
  \<open>ServerMessage\<close> as the reply.
\<close>

theorem login_flow_witness:
  "run \<lparr>interactive = False, quiet = False, password = ''pw'', command = ''players''\<rparr>
       [Datagram [0x42, 0x45, 0xFF, 0xED, 0xD9, 0x41, 0xFF, 0x00, 0x00]]
       \<lparr>written = [], write_fails = (\<lambda>k. False), cout = [], cin = [], mNextSeqNum = 0\<rparr>
   = (Inl (ProtocolException WrongPassword), [],
      \<lparr>written = [[0x42, 0x45, 0x84, 0x44, 0x1F, 0x1E, 0xFF, 0x00, 0x70, 0x77]],
       write_fails = (\<lambda>k. False), cout = [], cin = [], mNextSeqNum = 0\<rparr>)
   \<and> run \<lparr>interactive = False, quiet = False, password = ''pw'', command = ''players''\<rparr>
       [Datagram [0x42, 0x45, 0x69, 0xDD, 0xDE, 0x36, 0xFF, 0x00, 0x01],
        Datagram [0x42, 0x45, 0x4C, 0x98, 0xFF, 0x8C, 0xFF, 0x01, 0x00, 0x6F, 0x6B]]
       \<lparr>written = [], write_fails = (\<lambda>k. False), cout = [], cin = [], mNextSeqNum = 0\<rparr>
   = (Inr (), [],
      \<lparr>written = [[0x42, 0x45, 0x84, 0x44, 0x1F, 0x1E, 0xFF, 0x00, 0x70, 0x77],
                  [0x42, 0x45, 0xF9, 0x37, 0x94, 0xAE, 0xFF, 0x01, 0x00,
                   0x70, 0x6C, 0x61, 0x79, 0x65, 0x72, 0x73]],
       write_fails = (\<lambda>k. False), cout = [''ok'' @ endl], cin = [], mNextSeqNum = 1\<rparr>)
   \<and> fst (run \<lparr>interactive = False, quiet = False, password = ''pw'', command = ''quit''\<rparr>
       [Datagram [0x42, 0x45, 0x69, 0xDD, 0xDE, 0x36, 0xFF, 0x00, 0x01]]
       \<lparr>written = [], write_fails = (\<lambda>k. False), cout = [], cin = [], mNextSeqNum = 0\<rparr>)
     = Inr ()
   \<and> written (snd (snd
       (run \<lparr>interactive = False, quiet = False, password = ''pw'', command = ''quit''\<rparr>
         [Datagram [0x42, 0x45, 0x69, 0xDD, 0xDE, 0x36, 0xFF, 0x00, 0x01]]
         \<lparr>written = [], write_fails = (\<lambda>k. False), cout = [], cin = [], mNextSeqNum = 0\<rparr>)))
     = [[0x42, 0x45, 0x84, 0x44, 0x1F, 0x1E, 0xFF, 0x00, 0x70, 0x77]]
   \<and> run \<lparr>interactive = False, quiet = False, password = ''pw'', command = ''players''\<rparr>
       [Datagram [0x42, 0x45, 0xCC, 0xD6, 0x4A, 0x3A, 0xFF, 0x02, 0x07, 0x68, 0x69]]
       \<lparr>written = [], write_fails = (\<lambda>k. False), cout = [], cin = [], mNextSeqNum = 0\<rparr>
   = (Inl (ProtocolException UnexpectedMessage), [],
      \<lparr>written = [[0x42, 0x45, 0x84, 0x44, 0x1F, 0x1E, 0xFF, 0x00, 0x70, 0x77]],
       write_fails = (\<lambda>k. False), cout = [], cin = [], mNextSeqNum = 0\<rparr>)"
proof -
  let ?cfg = "\<lparr>interactive = False, quiet = False, password = ''pw'', command = ''players''\<rparr>"
  let ?cfgq = "\<lparr>interactive = False, quiet = False, password = ''pw'', command = ''quit''\<rparr>"
  let ?w = "\<lparr>written = [], write_fails = (\<lambda>k. False), cout = [], cin = [], mNextSeqNum = 0\<rparr>"
  let ?w1 = "\<lparr>written = [[0x42, 0x45, 0x84, 0x44, 0x1F, 0x1E, 0xFF, 0x00, 0x70, 0x77]],
             write_fails = (\<lambda>k. False), cout = [], cin = [], mNextSeqNum = 0\<rparr>"
  have fits: "8 + length (password ?cfg) \<le> BUF_SIZE"
    and fitsq: "8 + length (password ?cfgq) \<le> BUF_SIZE"
    by (simp_all add: BUF_SIZE_def)
  have writes: "\<not> write_fails ?w (length (written ?w))"
    by simp
  have after: "?w1 = ?w\<lparr>written := written ?w @ [wire_format (Login (password ?cfg))]\<rparr>"
    and afterq: "?w1 = ?w\<lparr>written := written ?w @ [wire_format (Login (password ?cfgq))]\<rparr>"
    using wire_format_Login_pw by simp_all
  have cmd: "''players'' = (if interactive ?cfg then (case cin ?w of [] \<Rightarrow> [] | x # xs \<Rightarrow> x)
                            else command ?cfg)"
    and cmdq: "''quit'' = (if interactive ?cfgq then (case cin ?w of [] \<Rightarrow> [] | x # xs \<Rightarrow> x)
                           else command ?cfgq)"
    by simp_all
  note flow = login_flow [of ?cfg ?w ?w1 "''players''", OF fits writes after cmd]
  note flowq = login_flow [of ?cfgq ?w ?w1 "''quit''", OF fitsq writes afterq cmdq]
  have rejected: "run ?cfg [Datagram [0x42, 0x45, 0xFF, 0xED, 0xD9, 0x41, 0xFF, 0x00, 0x00]] ?w
      = (Inl (ProtocolException WrongPassword), [], ?w1)"
    using flow [THEN conjunct1, THEN mp, OF receive_LoginResponse_0] .
  have "receivePacket (Datagram [0x42, 0x45, 0x69, 0xDD, 0xDE, 0x36, 0xFF, 0x00, 0x01])
      = Inr (LoginResponse 1) \<and> (1 :: uint8_t) \<noteq> 0"
    using receive_LoginResponse_1 by simp
  note accepted = flow [where result = 1, THEN conjunct2, THEN conjunct1, THEN mp, OF this]
    and acceptedq = flowq [where result = 1, THEN conjunct2, THEN conjunct1, THEN mp, OF this]
  from accepted [THEN conjunct1]
  have "run ?cfg [Datagram [0x42, 0x45, 0x69, 0xDD, 0xDE, 0x36, 0xFF, 0x00, 0x01],
                  Datagram [0x42, 0x45, 0x4C, 0x98, 0xFF, 0x8C, 0xFF, 0x01, 0x00, 0x6F, 0x6B]] ?w
      = execute_commands ?cfg
          [Datagram [0x42, 0x45, 0x4C, 0x98, 0xFF, 0x8C, 0xFF, 0x01, 0x00, 0x6F, 0x6B]] ?w1"
    by simp
  then have answered:
    "run ?cfg [Datagram [0x42, 0x45, 0x69, 0xDD, 0xDE, 0x36, 0xFF, 0x00, 0x01],
               Datagram [0x42, 0x45, 0x4C, 0x98, 0xFF, 0x8C, 0xFF, 0x01, 0x00, 0x6F, 0x6B]] ?w
      = (Inr (), [],
         \<lparr>written = [[0x42, 0x45, 0x84, 0x44, 0x1F, 0x1E, 0xFF, 0x00, 0x70, 0x77],
                     [0x42, 0x45, 0xF9, 0x37, 0x94, 0xAE, 0xFF, 0x01, 0x00,
                      0x70, 0x6C, 0x61, 0x79, 0x65, 0x72, 0x73]],
          write_fails = (\<lambda>k. False), cout = [''ok'' @ endl], cin = [], mNextSeqNum = 1\<rparr>)"
    by (simp only: commands_players)
  from acceptedq [THEN conjunct2, THEN conjunct1]
  have left: "fst (run ?cfgq [Datagram [0x42, 0x45, 0x69, 0xDD, 0xDE, 0x36, 0xFF, 0x00, 0x01]] ?w)
        = Inr ()"
    and nothing_sent: "written (snd (snd
        (run ?cfgq [Datagram [0x42, 0x45, 0x69, 0xDD, 0xDE, 0x36, 0xFF, 0x00, 0x01]] ?w)))
        = [[0x42, 0x45, 0x84, 0x44, 0x1F, 0x1E, 0xFF, 0x00, 0x70, 0x77]]"
    by simp_all
  have unexpected:
    "run ?cfg [Datagram [0x42, 0x45, 0xCC, 0xD6, 0x4A, 0x3A, 0xFF, 0x02, 0x07, 0x68, 0x69]] ?w
      = (Inl (ProtocolException UnexpectedMessage), [], ?w1)"
    using flow [where m = "ServerMessage 7 ''hi''", THEN conjunct2, THEN conjunct2, THEN mp]
      receive_ServerMessage_7_hi
    by simp
  from rejected answered left nothing_sent unexpected show ?thesis
    by (intro conjI)
qed

subsection \<open>C7: acknowledging a server message\<close>

text \<open>
  C7. While the session waits for the reply to a command, let it receive a
  \<open>ServerMessage\<close> with sequence number \<open>seqNum\<close> and text \<open>msg\<close>, and let the transport
  take the next packet. Then, in the world the receive loop ends with: the text, followed
  by a line end, was handed to \<open>log\<close> (what was on \<^verbatim>\<open>std::cout\<close> is followed by that line
  unless the quiet option is set); the next packet written after those written before is
  the \<open>ServerAck\<close> with the same sequence number, which is what \<open>encode\<close> writes for it;
  and the loop does not end with the message but goes on with the events that follow,
  so that with no further event it waits and times out.
\<close>

theorem server_message_acknowledged:
  assumes "receivePacket ev = Inr (ServerMessage seqNum msg)"
    and "\<not> write_fails w (length (written w))"
  shows "handle_responses cfg (ev # evs) w =
           handle_responses cfg evs
             ((log cfg (msg @ endl) w)
                \<lparr>written := written w
                   @ [[0x42, 0x45] @ le32_bytes (crc32 0 [0xFF, 0x02, seqNum])
                        @ [0xFF, 0x02, seqNum]]\<rparr>)
         \<and> (\<exists>ps. written (snd (snd (handle_responses cfg (ev # evs) w))) =
                 written w
                   @ [[0x42, 0x45] @ le32_bytes (crc32 0 [0xFF, 0x02, seqNum])
                        @ [0xFF, 0x02, seqNum]]
                   @ ps)
         \<and> (\<exists>os. cout (snd (snd (handle_responses cfg (ev # evs) w))) =
                 (if quiet cfg then cout w else cout w @ [msg @ endl]) @ os)
         \<and> handle_responses cfg [ev] w =
             (Inl (ProtocolException Timeout), [],
              (log cfg (msg @ endl) w)
                \<lparr>written := written w
                   @ [[0x42, 0x45] @ le32_bytes (crc32 0 [0xFF, 0x02, seqNum])
                        @ [0xFF, 0x02, seqNum]]\<rparr>)
         \<and> (\<exists>buf. encode (ServerAck seqNum) (replicate BUF_SIZE 0x00) = Inr (buf, 9)
              \<and> take 9 buf =
                  [0x42, 0x45] @ le32_bytes (crc32 0 [0xFF, 0x02, seqNum]) @ [0xFF, 0x02, seqNum])"
proof -
  let ?ack = "[0x42, 0x45] @ le32_bytes (crc32 0 [0xFF, 0x02, seqNum]) @ [0xFF, 0x02, seqNum]"
  let ?w' = "(log cfg (msg @ endl) w)\<lparr>written := written w @ [?ack]\<rparr>"
  have ack: "wire_format (ServerAck seqNum) = ?ack"
    by (simp add: frame_def)
  have fits: "length (wire_format (ServerAck seqNum)) \<le> BUF_SIZE"
    by (simp add: length_frame BUF_SIZE_def)
  moreover from assms(2)
  have "\<not> write_fails (log cfg (msg @ endl) w) (length (written (log cfg (msg @ endl) w)))"
    by simp
  ultimately have "sendPacket (ServerAck seqNum) (log cfg (msg @ endl) w) =
      (Inr (), (log cfg (msg @ endl) w)\<lparr>written := written w @ [wire_format (ServerAck seqNum)]\<rparr>)"
    using sendPacket_ok [of "ServerAck seqNum" "log cfg (msg @ endl) w"] by simp
  with assms(1) ack have loop: "handle_responses cfg (ev # es) w = handle_responses cfg es ?w'"
    for es
    by simp
  have sink: "cout ?w' = (if quiet cfg then cout w else cout w @ [msg @ endl])"
    by (simp add: log_def)
  obtain r es' v where rest: "handle_responses cfg evs ?w' = (r, es', v)"
    by (cases "handle_responses cfg evs ?w'")
  from handle_responses_extends [OF rest] obtain ps os
    where "v = ?w'\<lparr>written := written ?w' @ ps, cout := cout ?w' @ os\<rparr>"
    by blast
  then have "written v = written w @ [?ack] @ ps"
    and "cout v = (if quiet cfg then cout w else cout w @ [msg @ endl]) @ os"
    using sink by simp_all
  with rest have sent: "\<exists>ps. written (snd (snd (handle_responses cfg (ev # evs) w))) =
      written w @ [?ack] @ ps"
    and logged: "\<exists>os. cout (snd (snd (handle_responses cfg (ev # evs) w))) =
      (if quiet cfg then cout w else cout w @ [msg @ endl]) @ os"
    unfolding loop by auto
  have waits: "handle_responses cfg [ev] w = (Inl (ProtocolException Timeout), [], ?w')"
    unfolding loop by simp
  from fits have "length (wire_format (ServerAck seqNum))
      \<le> length (replicate BUF_SIZE (0x00 :: uint8_t))"
    by simp
  from encode_wire_format [OF this]
  have enc: "\<exists>buf. encode (ServerAck seqNum) (replicate BUF_SIZE 0x00) = Inr (buf, 9)
          \<and> take 9 buf = ?ack"
    unfolding ack [symmetric] by (simp add: length_frame)
  from loop [of evs] sent logged waits enc show ?thesis
    by (intro conjI)
qed

text \<open>
  The theorem at the server message with sequence number 7 and the text \<open>hi\<close>, alone
  and followed by a \<open>CommandResponse\<close> with the text \<open>ok\<close>, which ends the loop.
\<close>

theorem server_message_acknowledged_witness:
  "receivePacket (Datagram [0x42, 0x45, 0xCC, 0xD6, 0x4A, 0x3A, 0xFF, 0x02, 0x07, 0x68, 0x69])
     = Inr (ServerMessage 7 ''hi'')
   \<and> handle_responses
        \<lparr>interactive = False, quiet = False, password = ''pw'', command = ''players''\<rparr>
        [Datagram [0x42, 0x45, 0xCC, 0xD6, 0x4A, 0x3A, 0xFF, 0x02, 0x07, 0x68, 0x69]]
        \<lparr>written = [], write_fails = (\<lambda>k. False), cout = [], cin = [], mNextSeqNum = 0\<rparr>
     = (Inl (ProtocolException Timeout), [],
        \<lparr>written = [[0x42, 0x45, 0xDE, 0x1A, 0x8B, 0xED, 0xFF, 0x02, 0x07]],
         write_fails = (\<lambda>k. False), cout = [''hi'' @ endl], cin = [], mNextSeqNum = 0\<rparr>)
   \<and> handle_responses
        \<lparr>interactive = False, quiet = False, password = ''pw'', command = ''players''\<rparr>
        [Datagram [0x42, 0x45, 0xCC, 0xD6, 0x4A, 0x3A, 0xFF, 0x02, 0x07, 0x68, 0x69],
         Datagram [0x42, 0x45, 0x4C, 0x98, 0xFF, 0x8C, 0xFF, 0x01, 0x00, 0x6F, 0x6B]]
        \<lparr>written = [], write_fails = (\<lambda>k. False), cout = [], cin = [], mNextSeqNum = 0\<rparr>
     = (Inr (), [],
        \<lparr>written = [[0x42, 0x45, 0xDE, 0x1A, 0x8B, 0xED, 0xFF, 0x02, 0x07]],
         write_fails = (\<lambda>k. False), cout = [''hi'' @ endl, ''ok'' @ endl], cin = [],
         mNextSeqNum = 0\<rparr>)"
proof -
  let ?cfg = "\<lparr>interactive = False, quiet = False, password = ''pw'', command = ''players''\<rparr>"
  let ?w = "\<lparr>written = [], write_fails = (\<lambda>k. False), cout = [], cin = [], mNextSeqNum = 0\<rparr>"
  have writes: "\<not> write_fails ?w (length (written ?w))"
    by simp
  have ack: "[0x42, 0x45] @ le32_bytes (crc32 0 [0xFF, 0x02, 7]) @ [0xFF, 0x02, 7]
      = [0x42, 0x45, 0xDE, 0x1A, 0x8B, 0xED, 0xFF, 0x02, 0x07 :: uint8_t]"
    by (simp add: le32_bytes_def crc_eval)
  note acked = server_message_acknowledged [OF receive_ServerMessage_7_hi writes, of ?cfg]
  from acked [of "[]", THEN conjunct2, THEN conjunct2, THEN conjunct2, THEN conjunct1]
  have alone: "handle_responses ?cfg
          [Datagram [0x42, 0x45, 0xCC, 0xD6, 0x4A, 0x3A, 0xFF, 0x02, 0x07, 0x68, 0x69]] ?w
      = (Inl (ProtocolException Timeout), [],
         \<lparr>written = [[0x42, 0x45, 0xDE, 0x1A, 0x8B, 0xED, 0xFF, 0x02, 0x07]],
          write_fails = (\<lambda>k. False), cout = [''hi'' @ endl], cin = [], mNextSeqNum = 0\<rparr>)"
    unfolding ack by (simp add: log_def)
  from acked [of "[Datagram [0x42, 0x45, 0x4C, 0x98, 0xFF, 0x8C, 0xFF, 0x01, 0x00, 0x6F, 0x6B]]",
      THEN conjunct1]
  have answered: "handle_responses ?cfg
          [Datagram [0x42, 0x45, 0xCC, 0xD6, 0x4A, 0x3A, 0xFF, 0x02, 0x07, 0x68, 0x69],
           Datagram [0x42, 0x45, 0x4C, 0x98, 0xFF, 0x8C, 0xFF, 0x01, 0x00, 0x6F, 0x6B]] ?w
      = (Inr (), [],
         \<lparr>written = [[0x42, 0x45, 0xDE, 0x1A, 0x8B, 0xED, 0xFF, 0x02, 0x07]],
          write_fails = (\<lambda>k. False), cout = [''hi'' @ endl, ''ok'' @ endl], cin = [],
          mNextSeqNum = 0\<rparr>)"
    unfolding ack by (simp add: receive_CommandResponse_0_ok log_def)
  from receive_ServerMessage_7_hi alone answered show ?thesis
    by (intro conjI)
qed

subsection \<open>C8: the bytes of a login packet\<close>

text \<open>
  C8. Encoding \<open>Login ''secret''\<close> into a buffer that holds its 14 bytes produces exactly
  \<open>0x42 0x45\<close>, the four bytes of the CRC-32 of \<open>FF 00 73 65 63 72 65 74\<close> with the least
  significant byte first, \<open>0xFF\<close>, \<open>0x00\<close> and the six bytes of the password. With the
  checksum computed, the packet is \<open>42 45 C9 90 09 AE FF 00 73 65 63 72 65 74\<close>.
\<close>

theorem Login_secret_bytes:
  assumes "14 \<le> length buffer"
  shows "\<exists>buffer'. encode (Login ''secret'') buffer = Inr (buffer', 14)
           \<and> take 14 buffer' =
               [0x42, 0x45]
                 @ le32_bytes (crc32 0 [0xFF, 0x00, 0x73, 0x65, 0x63, 0x72, 0x65, 0x74])
                 @ [0xFF, 0x00, 0x73, 0x65, 0x63, 0x72, 0x65, 0x74]
           \<and> take 14 buffer' =
               [0x42, 0x45, 0xC9, 0x90, 0x09, 0xAE, 0xFF, 0x00, 0x73, 0x65, 0x63, 0x72, 0x65, 0x74]"
proof -
  have len: "length (wire_format (Login ''secret'')) = 14"
    by (simp add: length_frame)
  have layout: "wire_format (Login ''secret'') =
          [0x42, 0x45]
            @ le32_bytes (crc32 0 [0xFF, 0x00, 0x73, 0x65, 0x63, 0x72, 0x65, 0x74])
            @ [0xFF, 0x00, 0x73, 0x65, 0x63, 0x72, 0x65, 0x74]"
    by (simp add: frame_def to_uint8_def)
  have bytes: "wire_format (Login ''secret'') =
          [0x42, 0x45, 0xC9, 0x90, 0x09, 0xAE, 0xFF, 0x00, 0x73, 0x65, 0x63, 0x72, 0x65, 0x74]"
    unfolding layout by (simp add: crc_FF_00_secret le32_bytes_def)
  from assms have "length (wire_format (Login ''secret'')) \<le> length buffer"
    unfolding len .
  from encode_wire_format [OF this] obtain buffer'
    where enc: "encode (Login ''secret'') buffer = Inr (buffer', 14)"
      and written: "take 14 buffer' = wire_format (Login ''secret'')"
    unfolding len by blast
  show ?thesis
    using enc written [THEN trans, OF layout] written [THEN trans, OF bytes] by blast
qed

text \<open>The theorem at a buffer of 14 bytes that held \<open>0xAA\<close> throughout.\<close>

theorem Login_secret_bytes_witness:
  "14 \<le> length (replicate 14 (0xAA :: uint8_t))
   \<and> (\<exists>buffer'. encode (Login ''secret'') (replicate 14 0xAA) = Inr (buffer', 14)
           \<and> take 14 buffer' =
               [0x42, 0x45]
                 @ le32_bytes (crc32 0 [0xFF, 0x00, 0x73, 0x65, 0x63, 0x72, 0x65, 0x74])
                 @ [0xFF, 0x00, 0x73, 0x65, 0x63, 0x72, 0x65, 0x74]
           \<and> take 14 buffer' =
               [0x42, 0x45, 0xC9, 0x90, 0x09, 0xAE, 0xFF, 0x00, 0x73, 0x65, 0x63, 0x72, 0x65, 0x74])"
proof -
  have capacity: "14 \<le> length (replicate 14 (0xAA :: uint8_t))"
    by simp
  show ?thesis
    by (rule conjI [OF capacity Login_secret_bytes [OF capacity]])
qed

subsection \<open>C9: what \<open>decode\<close> can return\<close>

text \<open>
  C9. Whenever \<open>decode\<close> returns a message, it is a \<open>LoginResponse\<close>, a
  \<open>CommandPartialResponse\<close>, a \<open>CommandResponse\<close> or a \<open>ServerMessage\<close>; it never is a
  \<open>Login\<close>, a \<open>Command\<close> or a \<open>ServerAck\<close>.
\<close>

theorem decode_yields_server_message:
  assumes "decode buffer = Inr m"
  shows "getType m \<in> {MSG_LOGIN_RESP, MSG_CMD_PART_RESP, MSG_CMD_RESP, MSG_SRV_MSG}
         \<and> getType m \<noteq> MSG_LOGIN \<and> getType m \<noteq> MSG_CMD \<and> getType m \<noteq> MSG_SRV_ACK"
  using assms
  by (auto simp add: decode_def Let_def bindE_def split: if_splits sum.splits)

text \<open>The theorem at the packet of a \<open>LoginResponse\<close> with result 1.\<close>

theorem decode_yields_server_message_witness:
  "decode [0x42, 0x45, 0x69, 0xDD, 0xDE, 0x36, 0xFF, 0x00, 0x01] = Inr (LoginResponse 1)
   \<and> getType (LoginResponse 1) \<in> {MSG_LOGIN_RESP, MSG_CMD_PART_RESP, MSG_CMD_RESP, MSG_SRV_MSG}
   \<and> getType (LoginResponse 1) \<noteq> MSG_LOGIN \<and> getType (LoginResponse 1) \<noteq> MSG_CMD
   \<and> getType (LoginResponse 1) \<noteq> MSG_SRV_ACK"
proof -
  have returned:
    "decode [0x42, 0x45, 0x69, 0xDD, 0xDE, 0x36, 0xFF, 0x00, 0x01] = Inr (LoginResponse 1)"
    by (simp add: decode_eval crc_eval)
  show ?thesis
    by (rule conjI [OF returned decode_yields_server_message [OF returned]])
qed

subsection \<open>C10: copying a command\<close>

text \<open>
  C10. The copy constructor of \<open>Command\<close> takes a fresh sequence number: the copy carries
  the counter's current value, whatever the original's number is, and the counter is
  incremented. The copy has the original's number only when that number happens to be the
  counter's value; a command created with \<^verbatim>\<open>Command(cmd)\<close> and copied right away gets the
  next number, which differs from its own.
\<close>

theorem Command_copy_fresh_seqnum:
  "Command_copy (Command seq cmd) counter = (Command counter cmd, counter + 1)
   \<and> getSeqNum (fst (Command_copy (Command seq cmd) counter)) = counter
   \<and> (getSeqNum (fst (Command_copy (Command seq cmd) counter)) = getSeqNum (Command seq cmd))
       = (seq = counter)
   \<and> (let (original, counter1) = Command_new cmd counter;
           (copy, counter2) = Command_copy original counter1
       in getSeqNum original = counter \<and> getSeqNum copy = counter + 1
          \<and> getSeqNum copy \<noteq> getSeqNum original \<and> counter2 = counter + 2)"
  by (auto simp add: getNextSeqNum_def Command_new_def)

end
